theory Spec2Isabelle
  imports Main "HOL-Library.Sublist" "HOL-Library.Word"
begin

text \<open>
  The Linux container bridge of \<open>src/main/claude\<close>: \<open>LinuxContainerBridge\<close> runs a
  command in a rootless Podman or Docker container with the workspace mounted at
  \<open>/workspace\<close>, and serves file operations on paths it has validated against the
  workspace root. The theory embeds the class with the functions of the language and of
  Node it calls, and settles ten claims about it: path validation (C1, C2, C8), the
  result of running a command (C3, C4, C10), the environment of the container (C7), the
  life cycle (C5, C6) and deletion (C9).
\<close>

section \<open>Strings\<close>

text \<open>
  A JavaScript string is modelled by the bytes of its UTF-8 encoding (\<^typ>\<open>string\<close>, one
  \<^typ>\<open>char\<close> per byte). On well-formed strings \<open>startsWith\<close>, \<open>+\<close>, \<open>split\<close> and
  \<open>join\<close> on UTF-16 code units agree with the same operations on the encoding.
\<close>

fun startsWith :: "string \<Rightarrow> string \<Rightarrow> bool" where
  "startsWith s [] = True"
| "startsWith [] (c # cs) = False"
| "startsWith (d # ds) (c # cs) = (d = c \<and> startsWith ds cs)"

text \<open>\<open>s.split(sep)\<close> for a one-character separator: never the empty list.\<close>

fun splitOn :: "char \<Rightarrow> string \<Rightarrow> string list" where
  "splitOn sep [] = [Nil]"
| "splitOn sep (c # cs) =
     (if c = sep then [] # splitOn sep cs
      else (case splitOn sep cs of
              [] \<Rightarrow> [c # Nil]
            | seg # segs \<Rightarrow> (c # seg) # segs))"

text \<open>\<open>xs.join(sep)\<close>.\<close>

fun joinWith :: "string \<Rightarrow> string list \<Rightarrow> string" where
  "joinWith sep [] = []"
| "joinWith sep [x] = x"
| "joinWith sep (x # y # ys) = x @ sep @ joinWith sep (y # ys)"

section \<open>Node's \<open>path\<close> module, POSIX variant\<close>

text \<open>
  \<open>initialize\<close> refuses every platform but linux, so \<open>path\<close> is \<open>path.posix\<close>. The
  functions below follow Node's \<open>lib/path.js\<close>: \<open>normalizeString\<close> walks the
  \<open>/\<close>-separated segments, skips empty segments and \<open>.\<close>, and lets \<open>..\<close> remove the
  segment before it; at the top \<open>..\<close> is kept when \<open>allowAboveRoot\<close> holds and is
  dropped otherwise. The accumulator holds the segments kept so far, last one first.
\<close>

fun normalizeSegs :: "bool \<Rightarrow> string list \<Rightarrow> string list \<Rightarrow> string list" where
  "normalizeSegs allowAboveRoot acc [] = rev acc"
| "normalizeSegs allowAboveRoot acc (s # ss) =
     (if s = [] \<or> s = ''.'' then normalizeSegs allowAboveRoot acc ss
      else if s = ''..'' then
        (case acc of
           [] \<Rightarrow> normalizeSegs allowAboveRoot (if allowAboveRoot then [''..''] else []) ss
         | a # as \<Rightarrow>
             if a = ''..''
             then normalizeSegs allowAboveRoot (if allowAboveRoot then ''..'' # acc else acc) ss
             else normalizeSegs allowAboveRoot as ss)
      else normalizeSegs allowAboveRoot (s # acc) ss)"

definition normalizeString :: "string \<Rightarrow> bool \<Rightarrow> string" where
  "normalizeString p allowAboveRoot =
     joinWith ''/'' (normalizeSegs allowAboveRoot [] (splitOn CHR ''/'' p))"

definition isAbsolute :: "string \<Rightarrow> bool" where
  "isAbsolute p = (case p of [] \<Rightarrow> False | c # _ \<Rightarrow> c = CHR ''/'')"

definition path_normalize :: "string \<Rightarrow> string" where
  "path_normalize p =
     (if p = [] then ''.''
      else
        let isAbs = isAbsolute p;
            trailingSeparator = (last p = CHR ''/'');
            q = normalizeString p (\<not> isAbs)
        in if q = [] then (if isAbs then ''/'' else if trailingSeparator then ''./'' else ''.'')
           else (if isAbs then ''/'' else []) @ q @ (if trailingSeparator then ''/'' else []))"

text \<open>
  \<open>path.resolve(p)\<close> with one argument: \<open>p\<close>, then the working directory of the
  process when \<open>p\<close> is not absolute; empty entries are skipped.
\<close>

definition path_resolve :: "string \<Rightarrow> string \<Rightarrow> string" where
  "path_resolve cwd p =
     (let r0 = (if p = [] then [] else p @ ''/'');
          abs0 = isAbsolute p;
          r1 = (if abs0 \<or> cwd = [] then r0 else cwd @ ''/'' @ r0);
          abs1 = (abs0 \<or> isAbsolute cwd);
          q = normalizeString r1 (\<not> abs1)
      in if abs1 then ''/'' @ q else if q \<noteq> [] then q else ''.'')"

text \<open>\<open>path.join(a, b)\<close>: the non-empty arguments joined by \<open>/\<close>, then normalized.\<close>

definition path_join :: "string \<Rightarrow> string \<Rightarrow> string" where
  "path_join a b =
     (let joined = (if a = [] then b else if b = [] then a else a @ ''/'' @ b)
      in if joined = [] then ''.'' else path_normalize joined)"

text \<open>
  \<open>path.dirname(p)\<close>: scanning from the end down to index 1, the trailing slashes are
  skipped, then the last segment; the slash found there ends the directory part.
\<close>

definition path_dirname :: "string \<Rightarrow> string" where
  "path_dirname p =
     (case p of
        [] \<Rightarrow> ''.''
      | c # cs \<Rightarrow>
          let hasRoot = (c = CHR ''/'');
              r = dropWhile (\<lambda>x. x \<noteq> CHR ''/'') (dropWhile (\<lambda>x. x = CHR ''/'') (rev cs))
          in (case r of
                [] \<Rightarrow> (if hasRoot then ''/'' else ''.'')
              | _ # front \<Rightarrow>
                  if hasRoot \<and> front = [] then ''//'' else c # rev front))"

text \<open>
  \<open>path.relative(from, to)\<close>: both are resolved; the result climbs with \<open>..\<close> out of
  the segments of \<open>from\<close> below the common directory and descends along those of \<open>to\<close>.
\<close>

fun dropCommon :: "string list \<Rightarrow> string list \<Rightarrow> string list \<times> string list" where
  "dropCommon (x # xs) (y # ys) = (if x = y then dropCommon xs ys else (x # xs, y # ys))"
| "dropCommon xs ys = (xs, ys)"

definition pathSegments :: "string \<Rightarrow> string list" where
  "pathSegments p = filter (\<lambda>s. s \<noteq> []) (splitOn CHR ''/'' p)"

definition path_relative :: "string \<Rightarrow> string \<Rightarrow> string \<Rightarrow> string" where
  "path_relative cwd from to =
     (if from = to then []
      else
        let f = path_resolve cwd from;
            t = path_resolve cwd to
        in if f = t then []
           else (case dropCommon (pathSegments f) (pathSegments t) of
                   (fs, ts) \<Rightarrow> joinWith ''/'' (map (\<lambda>_. ''..'') fs @ ts)))"

section \<open>Text helpers of the language\<close>

text \<open>
  \<open>String.prototype.trim\<close> removes WhiteSpace and LineTerminator code points from both
  ends; the list holds their UTF-8 encodings (TAB, LF, VT, FF, CR, SP, U+00A0, U+1680,
  U+2000 to U+200A, U+2028, U+2029, U+202F, U+205F, U+3000, U+FEFF).
\<close>

definition whiteSpace :: "string list" where
  "whiteSpace =
     [ [CHR 0x09], [CHR 0x0A], [CHR 0x0B], [CHR 0x0C], [CHR 0x0D], [CHR 0x20],
      [CHR 0xC2, CHR 0xA0], [CHR 0xE1, CHR 0x9A, CHR 0x80],
      [CHR 0xE2, CHR 0x80, CHR 0x80], [CHR 0xE2, CHR 0x80, CHR 0x81],
      [CHR 0xE2, CHR 0x80, CHR 0x82], [CHR 0xE2, CHR 0x80, CHR 0x83],
      [CHR 0xE2, CHR 0x80, CHR 0x84], [CHR 0xE2, CHR 0x80, CHR 0x85],
      [CHR 0xE2, CHR 0x80, CHR 0x86], [CHR 0xE2, CHR 0x80, CHR 0x87],
      [CHR 0xE2, CHR 0x80, CHR 0x88], [CHR 0xE2, CHR 0x80, CHR 0x89],
      [CHR 0xE2, CHR 0x80, CHR 0x8A], [CHR 0xE2, CHR 0x80, CHR 0xA8],
      [CHR 0xE2, CHR 0x80, CHR 0xA9], [CHR 0xE2, CHR 0x80, CHR 0xAF],
      [CHR 0xE2, CHR 0x81, CHR 0x9F], [CHR 0xE3, CHR 0x80, CHR 0x80],
      [CHR 0xEF, CHR 0xBB, CHR 0xBF]]"

text \<open>The length of the first of \<open>seqs\<close> that \<open>s\<close> begins with, or 0.\<close>

definition leadingLength :: "string list \<Rightarrow> string \<Rightarrow> nat" where
  "leadingLength seqs s = (case find (startsWith s) seqs of None \<Rightarrow> 0 | Some w \<Rightarrow> length w)"

function stripLeading :: "string list \<Rightarrow> string \<Rightarrow> string" where
  "stripLeading seqs s =
     (if leadingLength seqs s = 0 \<or> s = [] then s
      else stripLeading seqs (drop (leadingLength seqs s) s))"
  by pat_completeness auto
termination
  by (relation "measure (\<lambda>(seqs, s). length s)") auto

definition trim :: "string \<Rightarrow> string" where
  "trim s = rev (stripLeading (map rev whiteSpace) (rev (stripLeading whiteSpace s)))"

text \<open>
  The decimal digits of a natural number. A template string prints a number that is an
  integer below \<open>2^53\<close> with exactly these digits; above, it rounds and from
  \<open>10^21\<close> on it uses the exponent form. The numbers printed by the bridge are kept
  in types below that bound: a timeout is a \<open>safeInteger\<close>, a user or group id has 32
  bits.
\<close>

type_synonym safeInteger = "53 word"

fun showNat :: "nat \<Rightarrow> string" where
  "showNat n =
     (if n < 10 then [''0123456789'' ! n]
      else showNat (n div 10) @ [''0123456789'' ! (n mod 10)])"

text \<open>
  \<open>Buffer.prototype.toString()\<close> decodes UTF-8. A byte sequence that is not well
  formed gives U+FFFD (here its encoding EF BF BD) for each maximal ill-formed part, and
  so does a sequence cut off by the end of the buffer. \<open>needed\<close> counts the continuation
  bytes still expected, \<open>lo\<close> and \<open>hi\<close> bound the next one, \<open>seen\<close> holds the bytes of
  the code point under way.
\<close>

type_synonym buffer = "char list"

definition replacementChar :: string where
  "replacementChar = [CHR 0xEF, CHR 0xBF, CHR 0xBD]"

definition byteOf :: "char \<Rightarrow> nat" where
  "byteOf c = of_char c"

definition leadByte :: "nat \<Rightarrow> (nat \<times> nat \<times> nat) option" where
  "leadByte b =
     (if 0xC2 \<le> b \<and> b \<le> 0xDF then Some (1, 0x80, 0xBF)
      else if b = 0xE0 then Some (2, 0xA0, 0xBF)
      else if b = 0xED then Some (2, 0x80, 0x9F)
      else if 0xE1 \<le> b \<and> b \<le> 0xEF then Some (2, 0x80, 0xBF)
      else if b = 0xF0 then Some (3, 0x90, 0xBF)
      else if b = 0xF4 then Some (3, 0x80, 0x8F)
      else if 0xF1 \<le> b \<and> b \<le> 0xF3 then Some (3, 0x80, 0xBF)
      else None)"

function utf8Decode :: "nat \<Rightarrow> nat \<Rightarrow> nat \<Rightarrow> string \<Rightarrow> buffer \<Rightarrow> string" where
  "utf8Decode needed lo hi seen [] = (if needed = 0 then [] else replacementChar)"
| "utf8Decode needed lo hi seen (c # cs) =
     (if needed = 0 then
        (if byteOf c < 0x80 then c # utf8Decode 0 0x80 0xBF [] cs
         else (case leadByte (byteOf c) of
                 None \<Rightarrow> replacementChar @ utf8Decode 0 0x80 0xBF [] cs
               | Some (n, l, u) \<Rightarrow> utf8Decode n l u [c] cs))
      else if lo \<le> byteOf c \<and> byteOf c \<le> hi then
        (if needed = 1 then seen @ [c] @ utf8Decode 0 0x80 0xBF [] cs
         else utf8Decode (needed - 1) 0x80 0xBF (seen @ [c]) cs)
      else replacementChar @ utf8Decode 0 0x80 0xBF [] (c # cs))"
  by pat_completeness auto
termination
  by (relation "measure (\<lambda>(needed, lo, hi, seen, bs). 2 * length bs + (if needed = 0 then 0 else 1))")
     auto

definition toString :: "buffer \<Rightarrow> string" where
  "toString buf = utf8Decode 0 0x80 0xBF [] buf"

section \<open>Objects with string keys\<close>

text \<open>
  A \<open>Record<string, string>\<close> is the list of its properties in creation order, each key
  once. Writing a property keeps the place of a key already there. The keys are
  enumerated (\<open>Object.entries\<close>, object spread) with the array indices first, in
  ascending numeric order, then the other keys in creation order.
\<close>

type_synonym jsobject = "(string \<times> string) list"

fun objSet :: "jsobject \<Rightarrow> string \<Rightarrow> string \<Rightarrow> jsobject" where
  "objSet [] k v = [(k, v)]"
| "objSet ((k', v') # kvs) k v =
     (if k' = k then (k, v) # kvs else (k', v') # objSet kvs k v)"

definition isDigit :: "char \<Rightarrow> bool" where
  "isDigit c = (48 \<le> byteOf c \<and> byteOf c \<le> 57)"

definition parseNat :: "string \<Rightarrow> nat" where
  "parseNat s = foldl (\<lambda>n c. 10 * n + (byteOf c - 48)) 0 s"

text \<open>
  An array index is the canonical decimal form of a number below \<open>2^32 - 1\<close>: digits
  only, and no leading zero but for \<open>0\<close> itself.
\<close>

definition isArrayIndex :: "string \<Rightarrow> bool" where
  "isArrayIndex k =
     (case k of
        [] \<Rightarrow> False
      | c # cs \<Rightarrow>
          list_all isDigit k \<and> (if c = CHR ''0'' then cs = [] else True)
          \<and> parseNat k < 4294967295)"

definition ownEntries :: "jsobject \<Rightarrow> (string \<times> string) list" where
  "ownEntries obj =
     sort_key (\<lambda>kv. parseNat (fst kv)) (filter (\<lambda>kv. isArrayIndex (fst kv)) obj)
     @ filter (\<lambda>kv. \<not> isArrayIndex (fst kv)) obj"

definition objSpread :: "jsobject \<Rightarrow> jsobject \<Rightarrow> jsobject" where
  "objSpread target src = foldl (\<lambda>t kv. objSet t (fst kv) (snd kv)) target (ownEntries src)"

section \<open>Data model\<close>

datatype ContainerRuntime = Podman | Docker

text \<open>
  Modelled from the spec: the declarations of \<open>./types\<close> (SandboxConfig, ExecutionResult,
  DirectoryEntry, LinuxContainerStatus) are not among the sources. The records have the
  fields the bridge reads and writes; the spec gives the workspace root, the default
  timeout in milliseconds and the default environment overlay for the configuration, and
  \<open>{ success, stdout, stderr, exitCode: int|null }\<close> for the result. Of the status, the
  session type, the desktop and the missing GUI tools are left out: the bridge never
  reads them. The timeout is a whole number of milliseconds below \<open>2^53\<close>, a safe
  integer (\<open>Number.isSafeInteger\<close>). \<open>cfg_workspacePath\<close> is
  the field \<open>workspacePath\<close> of the configuration, \<open>entry_size\<close> the field \<open>size\<close> of
  an entry, \<open>status_runtime\<close> and \<open>status_image\<close> the fields \<open>runtime\<close> and \<open>image\<close>
  of the status.
\<close>

record SandboxConfig =
  cfg_workspacePath :: string
  timeout :: "safeInteger option"
  env :: "jsobject option"

record ExecutionResult =
  success :: bool
  stdout :: string
  stderr :: string
  exitCode :: "int option"

record DirectoryEntry =
  name :: string
  isDirectory :: bool
  entry_size :: "nat option"

record LinuxContainerStatus =
  available :: bool
  status_runtime :: "ContainerRuntime option"
  rootless :: "bool option"
  version :: "string option"
  status_image :: "string option"
  imageAvailable :: "bool option"

text \<open>Every \<open>throw\<close> of the bridge, and the errors thrown by a call of \<open>fs\<close>.\<close>

datatype error =
    OnlyOnLinux
  | WorkspaceDoesNotExist string
  | NoRuntimeDetected
  | NotRootless ContainerRuntime
  | ImageNotPrepared string
  | BridgeNotInitialized
  | PathOutsideWorkspace string
  | SymlinkEscape string string
  | RuntimeNotInitialized
  | LinuxBridgeNotInitialized
  | FsError string

section \<open>The host\<close>

text \<open>
  What the bridge asks of the process and the operating system. The file system is a
  value of type \<open>'fs\<close>; a call of \<open>fs\<close> that throws gives \<open>Inl\<close> with the message and
  leaves the file system as it was. The probes answer for the external commands the
  bridge runs: \<open>which\<close>, \<open>--version\<close> (its stdout and stderr), the rootless check of
  \<open>detectRootless\<close> on the runtime's \<open>info\<close> output, \<open>image exists\<close> or \<open>image inspect\<close>,
  and \<open>pull\<close>.
\<close>

record Dirent =
  dirent_name :: string
  dirent_isDirectory :: bool
  dirent_isFile :: bool

record 'fs host =
  platform :: string
  cwd :: string
  getuid :: "32 word option"
  getgid :: "32 word option"
  envSandboxImage :: "string option"
  whichSucceeds :: "string \<Rightarrow> bool"
  versionOutput :: "string \<Rightarrow> (string \<times> string) option"
  rootlessProbe :: "ContainerRuntime \<Rightarrow> bool"
  imagePresent :: "ContainerRuntime \<Rightarrow> string \<Rightarrow> bool"
  pullSucceeds :: "ContainerRuntime \<Rightarrow> string \<Rightarrow> bool"
  existsSync :: "'fs \<Rightarrow> string \<Rightarrow> bool"
  realpathSync :: "'fs \<Rightarrow> string \<Rightarrow> string + string"
  readFileSync :: "'fs \<Rightarrow> string \<Rightarrow> string + string"
  writeFileSync :: "'fs \<Rightarrow> string \<Rightarrow> string \<Rightarrow> string + 'fs"
  mkdirSync :: "'fs \<Rightarrow> string \<Rightarrow> string + 'fs"
  readdirSync :: "'fs \<Rightarrow> string \<Rightarrow> string + Dirent list"
  statSize :: "'fs \<Rightarrow> string \<Rightarrow> string + nat"
  unlinkSync :: "'fs \<Rightarrow> string \<Rightarrow> string + 'fs"
  copyFileSync :: "'fs \<Rightarrow> string \<Rightarrow> string \<Rightarrow> string + 'fs"

section \<open>Runtime detection\<close>

definition DEFAULT_CONTAINER_IMAGE :: "'fs host \<Rightarrow> string" where
  "DEFAULT_CONTAINER_IMAGE h =
     (case envSandboxImage h of
        None \<Rightarrow> ''docker.io/library/node:20-bookworm-slim''
      | Some i \<Rightarrow> if i = [] then ''docker.io/library/node:20-bookworm-slim'' else i)"

definition commandExists :: "'fs host \<Rightarrow> string \<Rightarrow> bool" where
  "commandExists h command = whichSucceeds h command"

definition getBinaryVersion :: "'fs host \<Rightarrow> string \<Rightarrow> string option" where
  "getBinaryVersion h binary =
     (case versionOutput h binary of
        None \<Rightarrow> None
      | Some (out, err) \<Rightarrow>
          (case splitOn (CHR 0x0A) (trim (if out \<noteq> [] then out else err)) of
             [] \<Rightarrow> None
           | line # _ \<Rightarrow> if line = [] then None else Some line))"

definition detectRuntime :: "'fs host \<Rightarrow> (ContainerRuntime \<times> string option) option" where
  "detectRuntime h =
     (if commandExists h ''podman'' then Some (Podman, getBinaryVersion h ''podman'')
      else if commandExists h ''docker'' then Some (Docker, getBinaryVersion h ''docker'')
      else None)"

definition detectRootless :: "'fs host \<Rightarrow> ContainerRuntime \<Rightarrow> bool" where
  "detectRootless h rt = rootlessProbe h rt"

definition checkImageAvailable :: "'fs host \<Rightarrow> ContainerRuntime \<Rightarrow> string \<Rightarrow> bool" where
  "checkImageAvailable h rt img = imagePresent h rt img"

definition checkLinuxContainerStatus :: "'fs host \<Rightarrow> LinuxContainerStatus" where
  "checkLinuxContainerStatus h =
     (if platform h \<noteq> ''linux'' then
        \<lparr>available = False, status_runtime = None, rootless = None, version = None,
         status_image = None, imageAvailable = None\<rparr>
      else
        (case detectRuntime h of
           None \<Rightarrow>
             \<lparr>available = False, status_runtime = None, rootless = None, version = None,
              status_image = None, imageAvailable = None\<rparr>
         | Some (rt, ver) \<Rightarrow>
             \<lparr>available = detectRootless h rt, status_runtime = Some rt,
              rootless = Some (detectRootless h rt), version = ver,
              status_image = Some (DEFAULT_CONTAINER_IMAGE h),
              imageAvailable = Some (checkImageAvailable h rt (DEFAULT_CONTAINER_IMAGE h))\<rparr>))"

definition ensureImage :: "'fs host \<Rightarrow> ContainerRuntime \<Rightarrow> string \<Rightarrow> bool" where
  "ensureImage h rt img = (if checkImageAvailable h rt img then True else pullSucceeds h rt img)"

section \<open>The bridge\<close>

record LinuxContainerBridge =
  config :: "SandboxConfig option"
  workspacePath :: string
  initialized :: bool
  runtime :: "ContainerRuntime option"
  image :: string

definition containerWorkspacePath :: string where
  "containerWorkspacePath = ''/workspace''"

text \<open>The instance as its field initializers leave it.\<close>

definition newBridge :: "'fs host \<Rightarrow> LinuxContainerBridge" where
  "newBridge h =
     \<lparr>config = None, workspacePath = [], initialized = False, runtime = None,
      image = DEFAULT_CONTAINER_IMAGE h\<rparr>"

text \<open>
  \<open>initialize\<close> returns the error thrown, if any, and the instance as the call leaves it:
  the fields are assigned in the order of the source, before and between the checks.
\<close>

definition initialize ::
  "LinuxContainerBridge \<Rightarrow> 'fs host \<Rightarrow> 'fs \<Rightarrow> SandboxConfig \<Rightarrow> (error + unit) \<times> LinuxContainerBridge"
where
  "initialize b h fs cfg =
     (if platform h \<noteq> ''linux'' then (Inl OnlyOnLinux, b)
      else
        let b1 = b\<lparr>config := Some cfg,
                   workspacePath := path_resolve (cwd h) (cfg_workspacePath cfg)\<rparr>
        in if \<not> existsSync h fs (workspacePath b1)
           then (Inl (WorkspaceDoesNotExist (workspacePath b1)), b1)
           else
             let status = checkLinuxContainerStatus h
             in (case status_runtime status of
                   None \<Rightarrow> (Inl NoRuntimeDetected, b1)
                 | Some rt \<Rightarrow>
                     if rootless status \<noteq> Some True then (Inl (NotRootless rt), b1)
                     else
                       let b2 = b1\<lparr>runtime := Some rt,
                                    image := (case status_image status of
                                                None \<Rightarrow> DEFAULT_CONTAINER_IMAGE h
                                              | Some i \<Rightarrow>
                                                  if i = [] then DEFAULT_CONTAINER_IMAGE h else i)\<rparr>
                       in if \<not> ensureImage h rt (image b2)
                          then (Inl (ImageNotPrepared (image b2)), b2)
                          else (Inr (), b2\<lparr>initialized := True\<rparr>)))"

definition validatePath ::
  "LinuxContainerBridge \<Rightarrow> 'fs host \<Rightarrow> 'fs \<Rightarrow> string \<Rightarrow> error + string"
where
  "validatePath b h fs targetPath =
     (if workspacePath b = [] then Inl BridgeNotInitialized
      else
        let resolved = path_resolve (cwd h) targetPath;
            normalizedWorkspace = path_normalize (workspacePath b);
            normalizedTarget = path_normalize resolved
        in if \<not> startsWith normalizedTarget normalizedWorkspace
           then Inl (PathOutsideWorkspace resolved)
           else if existsSync h fs resolved then
             (case realpathSync h fs resolved of
                Inl e \<Rightarrow> Inl (FsError e)
              | Inr realPath \<Rightarrow>
                  if \<not> startsWith realPath normalizedWorkspace
                  then Inl (SymlinkEscape resolved realPath)
                  else Inr resolved)
           else Inr resolved)"

definition toContainerPath :: "LinuxContainerBridge \<Rightarrow> 'fs host \<Rightarrow> string \<Rightarrow> string" where
  "toContainerPath b h hostPath =
     (let rel = path_relative (cwd h) (workspacePath b) hostPath
      in if rel = [] \<or> rel = ''.'' then containerWorkspacePath
         else path_join containerWorkspacePath (joinWith ''/'' (splitOn CHR ''/'' rel)))"

text \<open>
  The test \<open>/^[A-Za-z_][A-Za-z0-9_]*$/\<close> on a variable name.
\<close>

definition isNameStart :: "char \<Rightarrow> bool" where
  "isNameStart c =
     ((65 \<le> byteOf c \<and> byteOf c \<le> 90) \<or> (97 \<le> byteOf c \<and> byteOf c \<le> 122) \<or> c = CHR ''_'')"

definition isNameChar :: "char \<Rightarrow> bool" where
  "isNameChar c = (isNameStart c \<or> isDigit c)"

definition safeName :: "string \<Rightarrow> bool" where
  "safeName key = (case key of [] \<Rightarrow> False | c # cs \<Rightarrow> isNameStart c \<and> list_all isNameChar cs)"

definition configEnv :: "LinuxContainerBridge \<Rightarrow> jsobject" where
  "configEnv b =
     (case config b of
        None \<Rightarrow> []
      | Some cfg \<Rightarrow> (case env cfg of None \<Rightarrow> [] | Some e \<Rightarrow> e))"

definition mergedEnv :: "LinuxContainerBridge \<Rightarrow> jsobject option \<Rightarrow> jsobject" where
  "mergedEnv b callEnv =
     objSet (objSpread (objSpread [] (configEnv b)) (case callEnv of None \<Rightarrow> [] | Some e \<Rightarrow> e))
       ''WORKSPACE'' containerWorkspacePath"

fun envArgs :: "(string \<times> string) list \<Rightarrow> string list" where
  "envArgs [] = []"
| "envArgs ((key, val) # rest) =
     (if \<not> safeName key then envArgs rest
      else [''--env'', key @ ''='' @ val] @ envArgs rest)"

definition userArgs :: "ContainerRuntime \<Rightarrow> 'fs host \<Rightarrow> string list" where
  "userArgs rt h =
     (if rt = Podman then [''--userns'', ''keep-id'']
      else (case (getuid h, getgid h) of
              (Some u, Some g) \<Rightarrow> [''--user'', showNat (unat u) @ '':'' @ showNat (unat g)]
            | _ \<Rightarrow> []))"

definition buildRuntimeArgs ::
  "LinuxContainerBridge \<Rightarrow> 'fs host \<Rightarrow> string \<Rightarrow> string \<Rightarrow> jsobject option \<Rightarrow> error + string list"
where
  "buildRuntimeArgs b h command dir callEnv =
     (case runtime b of
        None \<Rightarrow> Inl RuntimeNotInitialized
      | Some rt \<Rightarrow>
          Inr ([''run'', ''--rm'', ''--network'', ''none'', ''--cap-drop'', ''ALL'',
                ''--security-opt'', ''no-new-privileges'', ''--pids-limit'', ''512'',
                ''--workdir'', dir,
                ''--volume'', workspacePath b @ '':'' @ containerWorkspacePath @ '':rw'']
               @ userArgs rt h
               @ envArgs (ownEntries (mergedEnv b callEnv))
               @ [image b, ''/bin/bash'', ''-lc'', command]))"

section \<open>Running a command\<close>

text \<open>
  The promise of \<open>executeCommand\<close> is settled by the callbacks the event loop runs
  after \<open>spawn\<close>: chunks on the two pipes, \<open>error\<close>, \<open>close\<close> with the exit code (or
  \<open>null\<close>), and the timer. The run is the list of these callbacks in the order they are
  called. The record holds the variables of the closure, whether the timer is still
  set, whether \<open>child.kill('SIGKILL')\<close> was called, and the value the promise was
  resolved with; a second \<open>resolve\<close> changes nothing. A timer that was cleared, or has
  fired, does not fire.
\<close>

datatype child_event =
    StdoutData buffer
  | StderrData buffer
  | ErrorEvent string
  | CloseEvent "int option"
  | TimerFired

record exec_state =
  stdout_acc :: string
  stderr_acc :: string
  timedOut :: bool
  timerSet :: bool
  killCalled :: bool
  settled :: "ExecutionResult option"

definition resolvePromise :: "exec_state \<Rightarrow> ExecutionResult \<Rightarrow> exec_state" where
  "resolvePromise s r = (case settled s of None \<Rightarrow> s\<lparr>settled := Some r\<rparr> | Some _ \<Rightarrow> s)"

definition timeoutMessage :: "safeInteger \<Rightarrow> string" where
  "timeoutMessage timeoutMs =
     CHR 0x0A # ''Command timed out after '' @ showNat (unat timeoutMs) @ ''ms''"

fun handleEvent :: "safeInteger \<Rightarrow> exec_state \<Rightarrow> child_event \<Rightarrow> exec_state" where
  "handleEvent timeoutMs s TimerFired =
     (if timerSet s then s\<lparr>timedOut := True, killCalled := True, timerSet := False\<rparr> else s)"
| "handleEvent timeoutMs s (StdoutData d) = s\<lparr>stdout_acc := stdout_acc s @ toString d\<rparr>"
| "handleEvent timeoutMs s (StderrData d) = s\<lparr>stderr_acc := stderr_acc s @ toString d\<rparr>"
| "handleEvent timeoutMs s (ErrorEvent msg) =
     resolvePromise (s\<lparr>timerSet := False\<rparr>)
       \<lparr>success = False, stdout = stdout_acc s,
        stderr = trim (stderr_acc s @ [CHR 0x0A] @ msg), exitCode = Some 1\<rparr>"
| "handleEvent timeoutMs s (CloseEvent code) =
     (if timedOut s then
        resolvePromise (s\<lparr>timerSet := False\<rparr>)
          \<lparr>success = False, stdout = stdout_acc s,
           stderr = trim (stderr_acc s @ timeoutMessage timeoutMs), exitCode = Some 124\<rparr>
      else
        resolvePromise (s\<lparr>timerSet := False\<rparr>)
          \<lparr>success = (code = Some 0), stdout = stdout_acc s, stderr = stderr_acc s,
           exitCode = Some (case code of None \<Rightarrow> 1 | Some n \<Rightarrow> n)\<rparr>)"

definition spawned :: exec_state where
  "spawned =
     \<lparr>stdout_acc = [], stderr_acc = [], timedOut = False, timerSet = True,
      killCalled = False, settled = None\<rparr>"

definition runChild :: "safeInteger \<Rightarrow> child_event list \<Rightarrow> exec_state" where
  "runChild timeoutMs events = foldl (handleEvent timeoutMs) spawned events"

definition timeoutOf :: "LinuxContainerBridge \<Rightarrow> safeInteger" where
  "timeoutOf b =
     (case config b of
        None \<Rightarrow> 60000
      | Some cfg \<Rightarrow> (case timeout cfg of None \<Rightarrow> 60000 | Some t \<Rightarrow> if t = 0 then 60000 else t))"

text \<open>
  \<open>executeCommand\<close>: \<open>Inl\<close> is the error thrown before the spawn; otherwise the value
  the promise is resolved with, \<open>None\<close> while no callback has settled it. \<open>events\<close>
  is the run of the process spawned with the runtime and the arguments built; \<open>spawn\<close>
  itself is taken not to throw.
\<close>

definition executeCommand ::
  "LinuxContainerBridge \<Rightarrow> 'fs host \<Rightarrow> 'fs \<Rightarrow> string \<Rightarrow> string option \<Rightarrow> jsobject option
     \<Rightarrow> child_event list \<Rightarrow> error + ExecutionResult option"
where
  "executeCommand b h fs command dir callEnv events =
     (if \<not> initialized b \<or> runtime b = None then Inl LinuxBridgeNotInitialized
      else
        (case (case dir of
                 None \<Rightarrow> Inr (workspacePath b)
               | Some d \<Rightarrow> if d = [] then Inr (workspacePath b) else validatePath b h fs d) of
           Inl e \<Rightarrow> Inl e
         | Inr hostCwd \<Rightarrow>
             (case buildRuntimeArgs b h command (toContainerPath b h hostCwd) callEnv of
                Inl e \<Rightarrow> Inl e
              | Inr runtimeArgs \<Rightarrow>
                  Inr (settled (runChild (timeoutOf b) events)))))"

section \<open>File operations\<close>

definition readFile ::
  "LinuxContainerBridge \<Rightarrow> 'fs host \<Rightarrow> 'fs \<Rightarrow> string \<Rightarrow> error + string"
where
  "readFile b h fs filePath =
     (case validatePath b h fs filePath of
        Inl e \<Rightarrow> Inl e
      | Inr validPath \<Rightarrow>
          (case readFileSync h fs validPath of Inl e \<Rightarrow> Inl (FsError e) | Inr content \<Rightarrow> Inr content))"

definition writeFile ::
  "LinuxContainerBridge \<Rightarrow> 'fs host \<Rightarrow> 'fs \<Rightarrow> string \<Rightarrow> string \<Rightarrow> (error + unit) \<times> 'fs"
where
  "writeFile b h fs filePath content =
     (case validatePath b h fs filePath of
        Inl e \<Rightarrow> (Inl e, fs)
      | Inr validPath \<Rightarrow>
          (case mkdirSync h fs (path_dirname validPath) of
             Inl e \<Rightarrow> (Inl (FsError e), fs)
           | Inr fs1 \<Rightarrow>
               (case writeFileSync h fs1 validPath content of
                  Inl e \<Rightarrow> (Inl (FsError e), fs1)
                | Inr fs2 \<Rightarrow> (Inr (), fs2))))"

fun directoryEntries :: "'fs host \<Rightarrow> 'fs \<Rightarrow> string \<Rightarrow> Dirent list \<Rightarrow> error + DirectoryEntry list" where
  "directoryEntries h fs validPath [] = Inr []"
| "directoryEntries h fs validPath (entry # entries) =
     (case (if dirent_isFile entry
            then (case statSize h fs (path_join validPath (dirent_name entry)) of
                    Inl e \<Rightarrow> Inl (FsError e)
                  | Inr n \<Rightarrow> Inr (Some n))
            else Inr None) of
        Inl e \<Rightarrow> Inl e
      | Inr sz \<Rightarrow>
          (case directoryEntries h fs validPath entries of
             Inl e \<Rightarrow> Inl e
           | Inr rest \<Rightarrow>
               Inr (\<lparr>name = dirent_name entry, isDirectory = dirent_isDirectory entry,
                     entry_size = sz\<rparr> # rest)))"

definition listDirectory ::
  "LinuxContainerBridge \<Rightarrow> 'fs host \<Rightarrow> 'fs \<Rightarrow> string \<Rightarrow> error + DirectoryEntry list"
where
  "listDirectory b h fs dirPath =
     (case validatePath b h fs dirPath of
        Inl e \<Rightarrow> Inl e
      | Inr validPath \<Rightarrow>
          (case readdirSync h fs validPath of
             Inl e \<Rightarrow> Inl (FsError e)
           | Inr entries \<Rightarrow> directoryEntries h fs validPath entries))"

definition fileExists :: "LinuxContainerBridge \<Rightarrow> 'fs host \<Rightarrow> 'fs \<Rightarrow> string \<Rightarrow> bool" where
  "fileExists b h fs filePath =
     (case validatePath b h fs filePath of
        Inl e \<Rightarrow> False
      | Inr validPath \<Rightarrow> existsSync h fs validPath)"

definition deleteFile ::
  "LinuxContainerBridge \<Rightarrow> 'fs host \<Rightarrow> 'fs \<Rightarrow> string \<Rightarrow> (error + unit) \<times> 'fs"
where
  "deleteFile b h fs filePath =
     (case validatePath b h fs filePath of
        Inl e \<Rightarrow> (Inl e, fs)
      | Inr validPath \<Rightarrow>
          if existsSync h fs validPath then
            (case unlinkSync h fs validPath of
               Inl e \<Rightarrow> (Inl (FsError e), fs)
             | Inr fs1 \<Rightarrow> (Inr (), fs1))
          else (Inr (), fs))"

definition createDirectory ::
  "LinuxContainerBridge \<Rightarrow> 'fs host \<Rightarrow> 'fs \<Rightarrow> string \<Rightarrow> (error + unit) \<times> 'fs"
where
  "createDirectory b h fs dirPath =
     (case validatePath b h fs dirPath of
        Inl e \<Rightarrow> (Inl e, fs)
      | Inr validPath \<Rightarrow>
          (case mkdirSync h fs validPath of
             Inl e \<Rightarrow> (Inl (FsError e), fs)
           | Inr fs1 \<Rightarrow> (Inr (), fs1)))"

definition copyFile ::
  "LinuxContainerBridge \<Rightarrow> 'fs host \<Rightarrow> 'fs \<Rightarrow> string \<Rightarrow> string \<Rightarrow> (error + unit) \<times> 'fs"
where
  "copyFile b h fs src dest =
     (case validatePath b h fs src of
        Inl e \<Rightarrow> (Inl e, fs)
      | Inr validSrc \<Rightarrow>
          (case validatePath b h fs dest of
             Inl e \<Rightarrow> (Inl e, fs)
           | Inr validDest \<Rightarrow>
               (case mkdirSync h fs (path_dirname validDest) of
                  Inl e \<Rightarrow> (Inl (FsError e), fs)
                | Inr fs1 \<Rightarrow>
                    (case copyFileSync h fs1 validSrc validDest of
                       Inl e \<Rightarrow> (Inl (FsError e), fs1)
                     | Inr fs2 \<Rightarrow> (Inr (), fs2)))))"

definition shutdown :: "LinuxContainerBridge \<Rightarrow> LinuxContainerBridge" where
  "shutdown b = b\<lparr>initialized := False, config := None, runtime := None\<rparr>"

section \<open>Notions used to state the properties\<close>

text \<open>
  Containment as the specification words it: a path lies within the workspace root when
  the segments of the root are the first segments of the path.
\<close>

definition withinRoot :: "string \<Rightarrow> string \<Rightarrow> bool" where
  "withinRoot root p = prefix (pathSegments root) (pathSegments p)"

text \<open>What a run wrote on each pipe: the bytes, and the text the callbacks appended.\<close>

fun stdoutBytes :: "child_event list \<Rightarrow> buffer" where
  "stdoutBytes [] = []"
| "stdoutBytes (StdoutData d # es) = d @ stdoutBytes es"
| "stdoutBytes (e # es) = stdoutBytes es"

fun stderrBytes :: "child_event list \<Rightarrow> buffer" where
  "stderrBytes [] = []"
| "stderrBytes (StderrData d # es) = d @ stderrBytes es"
| "stderrBytes (e # es) = stderrBytes es"

fun stdoutText :: "child_event list \<Rightarrow> string" where
  "stdoutText [] = []"
| "stdoutText (StdoutData d # es) = toString d @ stdoutText es"
| "stdoutText (e # es) = stdoutText es"

fun stderrText :: "child_event list \<Rightarrow> string" where
  "stderrText [] = []"
| "stderrText (StderrData d # es) = toString d @ stderrText es"
| "stderrText (e # es) = stderrText es"

fun isData :: "child_event \<Rightarrow> bool" where
  "isData (StdoutData d) = True"
| "isData (StderrData d) = True"
| "isData e = False"

fun settles :: "child_event \<Rightarrow> bool" where
  "settles (ErrorEvent msg) = True"
| "settles (CloseEvent code) = True"
| "settles e = False"

text \<open>
  Well-formed UTF-8, after the table of the Unicode standard: a byte below 80, or a lead
  byte followed by the continuation bytes it asks for, the first one within the bounds
  of that lead byte.
\<close>

definition continuation :: "nat \<Rightarrow> nat \<Rightarrow> char \<Rightarrow> bool" where
  "continuation lo hi c = (lo \<le> byteOf c \<and> byteOf c \<le> hi)"

function wellFormed :: "buffer \<Rightarrow> bool" where
  "wellFormed [] = True"
| "wellFormed (c # cs) =
     (if byteOf c < 0x80 then wellFormed cs
      else (case leadByte (byteOf c) of
              None \<Rightarrow> False
            | Some (n, lo, hi) \<Rightarrow>
                (case cs of
                   [] \<Rightarrow> False
                 | d # ds \<Rightarrow>
                     continuation lo hi d \<and> n - 1 \<le> length ds
                     \<and> list_all (continuation 0x80 0xBF) (take (n - 1) ds)
                     \<and> wellFormed (drop (n - 1) ds))))"
  by pat_completeness auto
termination
  by (relation "measure length") auto

fun wellFormedChunk :: "child_event \<Rightarrow> bool" where
  "wellFormedChunk (StdoutData d) = wellFormed d"
| "wellFormedChunk (StderrData d) = wellFormed d"
| "wellFormedChunk e = True"

text \<open>The value a run settles the promise with, at its first \<open>error\<close> or \<open>close\<close>.\<close>

definition settlement :: "safeInteger \<Rightarrow> child_event list \<Rightarrow> child_event \<Rightarrow> ExecutionResult" where
  "settlement t pre e =
     (case e of
        ErrorEvent msg \<Rightarrow>
          \<lparr>success = False, stdout = stdoutText pre,
           stderr = trim (stderrText pre @ [CHR 0x0A] @ msg), exitCode = Some 1\<rparr>
      | CloseEvent code \<Rightarrow>
          if TimerFired \<in> set pre then
            \<lparr>success = False, stdout = stdoutText pre,
             stderr = trim (stderrText pre @ timeoutMessage t), exitCode = Some 124\<rparr>
          else
            \<lparr>success = (code = Some 0), stdout = stdoutText pre, stderr = stderrText pre,
             exitCode = Some (case code of None \<Rightarrow> 1 | Some n \<Rightarrow> n)\<rparr>
      | _ \<Rightarrow> \<lparr>success = False, stdout = [], stderr = [], exitCode = None\<rparr>)"

text \<open>
  \<open>executeCommand\<close> gets as far as \<open>spawn\<close> when the bridge is initialized and the
  working directory, if one is given, passes \<open>validatePath\<close>.
\<close>

definition reachesSpawn :: "LinuxContainerBridge \<Rightarrow> 'fs host \<Rightarrow> 'fs \<Rightarrow> string option \<Rightarrow> bool" where
  "reachesSpawn b h fs dir =
     (initialized b \<and> runtime b \<noteq> None
      \<and> (case dir of
            None \<Rightarrow> True
          | Some d \<Rightarrow> if d = [] then True else \<not> isl (validatePath b h fs d)))"

text \<open>The variables \<open>buildRuntimeArgs\<close> passes on, in the order of its loop.\<close>

definition forwardedEnv :: "LinuxContainerBridge \<Rightarrow> jsobject option \<Rightarrow> (string \<times> string) list" where
  "forwardedEnv b callEnv = filter (\<lambda>kv. safeName (fst kv)) (ownEntries (mergedEnv b callEnv))"

text \<open>
  A plain segment is a name: not empty, not \<open>.\<close> or \<open>..\<close>, and without a slash.
  \<open>resolvedSegs\<close> are the segments that \<open>path.resolve\<close> leaves of a path.
\<close>

definition plainSeg :: "string \<Rightarrow> bool" where
  "plainSeg s = (s \<noteq> [] \<and> s \<noteq> ''.'' \<and> s \<noteq> ''..'' \<and> CHR ''/'' \<notin> set s)"

definition resolvedSegs :: "string \<Rightarrow> string \<Rightarrow> string list" where
  "resolvedSegs dir p =
     normalizeSegs False [] (pathSegments (if isAbsolute p then p else dir @ ''/'' @ p))"

section \<open>An example host\<close>

text \<open>
  A small host in memory, for evaluating the bridge on concrete inputs: Podman installed
  and rootless, the image present, and a file system that maps canonical absolute paths
  to files, directories and symbolic links; the root directory is always there. A path
  is resolved as the kernel does it, component by component from the root (from the
  working directory for a relative path): \<open>.\<close> and an empty component stay, \<open>..\<close>
  goes up, a directory is entered, a symbolic link is replaced by its target (at most 40
  times), a file ends the path.
\<close>

datatype fsnode = FileNode string | DirNode | LinkNode string

type_synonym memfs = "(string \<times> fsnode) list"

definition absPath :: "string list \<Rightarrow> string" where
  "absPath segs = CHR ''/'' # joinWith ''/'' segs"

definition nodeAt :: "memfs \<Rightarrow> string list \<Rightarrow> fsnode option" where
  "nodeAt fs segs = (if segs = [] then Some DirNode else map_of fs (absPath segs))"

definition memRemove :: "memfs \<Rightarrow> string \<Rightarrow> memfs" where
  "memRemove fs p = filter (\<lambda>kv. fst kv \<noteq> p) fs"

fun walk :: "nat \<Rightarrow> memfs \<Rightarrow> string list \<Rightarrow> string list \<Rightarrow> string + string list" where
  "walk fuel fs cur [] = Inr cur"
| "walk fuel fs cur (s # rest) =
     (if s = [] \<or> s = ''.'' then walk fuel fs cur rest
      else if s = ''..'' then walk fuel fs (butlast cur) rest
      else
        (case map_of fs (absPath (cur @ [s])) of
           None \<Rightarrow> Inl ''ENOENT''
         | Some DirNode \<Rightarrow> walk fuel fs (cur @ [s]) rest
         | Some (FileNode content) \<Rightarrow> if rest = [] then Inr (cur @ [s]) else Inl ''ENOTDIR''
         | Some (LinkNode target) \<Rightarrow>
             (case fuel of
                0 \<Rightarrow> Inl ''ELOOP''
              | Suc fewer \<Rightarrow>
                  if target = [] then Inl ''ENOENT''
                  else walk fewer fs (if isAbsolute target then [] else cur)
                         (splitOn CHR ''/'' target @ rest))))"

text \<open>The components of a path as the process sees it, and its resolution.\<close>

definition components :: "string \<Rightarrow> string \<Rightarrow> string list" where
  "components dir p = splitOn CHR ''/'' (if isAbsolute p then p else dir @ ''/'' @ p)"

definition resolveIn :: "string \<Rightarrow> memfs \<Rightarrow> string \<Rightarrow> string + string list" where
  "resolveIn dir fs p = (if p = [] then Inl ''ENOENT'' else walk 40 fs [] (components dir p))"

definition memExists :: "string \<Rightarrow> memfs \<Rightarrow> string \<Rightarrow> bool" where
  "memExists dir fs p = (case resolveIn dir fs p of Inl e \<Rightarrow> False | Inr real \<Rightarrow> True)"

definition memRealpath :: "string \<Rightarrow> memfs \<Rightarrow> string \<Rightarrow> string + string" where
  "memRealpath dir fs p = (case resolveIn dir fs p of Inl e \<Rightarrow> Inl e | Inr real \<Rightarrow> Inr (absPath real))"

definition memRead :: "string \<Rightarrow> memfs \<Rightarrow> string \<Rightarrow> string + string" where
  "memRead dir fs p =
     (case resolveIn dir fs p of
        Inl e \<Rightarrow> Inl e
      | Inr real \<Rightarrow>
          (case nodeAt fs real of
             Some (FileNode content) \<Rightarrow> Inr content
           | Some DirNode \<Rightarrow> Inl ''EISDIR''
           | _ \<Rightarrow> Inl ''ENOENT''))"

definition memStatSize :: "string \<Rightarrow> memfs \<Rightarrow> string \<Rightarrow> string + nat" where
  "memStatSize dir fs p =
     (case resolveIn dir fs p of
        Inl e \<Rightarrow> Inl e
      | Inr real \<Rightarrow>
          (case nodeAt fs real of
             Some (FileNode content) \<Rightarrow> Inr (length content)
           | Some DirNode \<Rightarrow> Inr 4096
           | _ \<Rightarrow> Inl ''ENOENT''))"

text \<open>
  The entries of a directory are the paths one name below it; an entry that is a
  symbolic link is neither a file nor a directory.
\<close>

definition memReaddir :: "string \<Rightarrow> memfs \<Rightarrow> string \<Rightarrow> string + Dirent list" where
  "memReaddir dir fs p =
     (case resolveIn dir fs p of
        Inl e \<Rightarrow> Inl e
      | Inr real \<Rightarrow>
          (case nodeAt fs real of
             Some DirNode \<Rightarrow>
               Inr (map (\<lambda>kv. \<lparr>dirent_name = last (pathSegments (fst kv)),
                                 dirent_isDirectory = (snd kv = DirNode),
                                 dirent_isFile = (case snd kv of FileNode content \<Rightarrow> True | _ \<Rightarrow> False)\<rparr>)
                      (filter (\<lambda>kv. pathSegments (fst kv) \<noteq> []
                                      \<and> butlast (pathSegments (fst kv)) = real
                                      \<and> absPath (pathSegments (fst kv)) = fst kv) fs))
           | _ \<Rightarrow> Inl ''ENOTDIR''))"

text \<open>
  \<open>unlink\<close> resolves the directory of the path and removes the entry named there,
  without following it; it refuses a directory.
\<close>

definition memUnlink :: "string \<Rightarrow> memfs \<Rightarrow> string \<Rightarrow> string + memfs" where
  "memUnlink dir fs p =
     (if p = [] then Inl ''ENOENT''
      else if last (components dir p) = [] \<or> last (components dir p) = ''.''
              \<or> last (components dir p) = ''..'' then Inl ''EISDIR''
      else
        (case walk 40 fs [] (butlast (components dir p)) of
           Inl e \<Rightarrow> Inl e
         | Inr parent \<Rightarrow>
             (case nodeAt fs parent of
                Some DirNode \<Rightarrow>
                  (case map_of fs (absPath (parent @ [last (components dir p)])) of
                     None \<Rightarrow> Inl ''ENOENT''
                   | Some DirNode \<Rightarrow> Inl ''EISDIR''
                   | Some node \<Rightarrow> Inr (memRemove fs (absPath (parent @ [last (components dir p)]))))
              | _ \<Rightarrow> Inl ''ENOTDIR'')))"

text \<open>
  Writing creates the file in the directory of the path, or replaces the content of the
  file the path names, a symbolic link in the last component being followed.
\<close>

fun writeAt :: "nat \<Rightarrow> memfs \<Rightarrow> string list \<Rightarrow> string list \<Rightarrow> string \<Rightarrow> string + memfs" where
  "writeAt fuel fs cur parts content =
     (if parts = [] \<or> last parts = [] \<or> last parts = ''.'' \<or> last parts = ''..'' then Inl ''EISDIR''
      else
        (case walk 40 fs cur (butlast parts) of
           Inl e \<Rightarrow> Inl e
         | Inr parent \<Rightarrow>
             (case nodeAt fs parent of
                Some DirNode \<Rightarrow>
                  (case map_of fs (absPath (parent @ [last parts])) of
                     None \<Rightarrow> Inr (fs @ [(absPath (parent @ [last parts]), FileNode content)])
                   | Some (FileNode old) \<Rightarrow>
                       Inr (map (\<lambda>kv. if fst kv = absPath (parent @ [last parts])
                                       then (fst kv, FileNode content) else kv) fs)
                   | Some DirNode \<Rightarrow> Inl ''EISDIR''
                   | Some (LinkNode target) \<Rightarrow>
                       (case fuel of
                          0 \<Rightarrow> Inl ''ELOOP''
                        | Suc fewer \<Rightarrow>
                            if target = [] then Inl ''ENOENT''
                            else writeAt fewer fs (if isAbsolute target then [] else parent)
                                   (splitOn CHR ''/'' target) content))
              | _ \<Rightarrow> Inl ''ENOTDIR'')))"

definition memWrite :: "string \<Rightarrow> memfs \<Rightarrow> string \<Rightarrow> string \<Rightarrow> string + memfs" where
  "memWrite dir fs p content =
     (if p = [] then Inl ''ENOENT'' else writeAt 40 fs [] (components dir p) content)"

text \<open>
  \<open>mkdir\<close> with \<open>recursive\<close>: the directories missing along the path are created; a
  directory that is there is entered, also through a symbolic link.
\<close>

fun mkdirAt :: "memfs \<Rightarrow> string list \<Rightarrow> string list \<Rightarrow> string + memfs" where
  "mkdirAt fs cur [] = Inr fs"
| "mkdirAt fs cur (s # rest) =
     (if s = [] \<or> s = ''.'' then mkdirAt fs cur rest
      else if s = ''..'' then mkdirAt fs (butlast cur) rest
      else
        (case map_of fs (absPath (cur @ [s])) of
           None \<Rightarrow> mkdirAt (fs @ [(absPath (cur @ [s]), DirNode)]) (cur @ [s]) rest
         | Some DirNode \<Rightarrow> mkdirAt fs (cur @ [s]) rest
         | Some (FileNode content) \<Rightarrow> Inl (if rest = [] then ''EEXIST'' else ''ENOTDIR'')
         | Some (LinkNode target) \<Rightarrow>
             (case walk 40 fs cur [s] of
                Inl e \<Rightarrow> Inl e
              | Inr real \<Rightarrow>
                  (case nodeAt fs real of
                     Some DirNode \<Rightarrow> mkdirAt fs real rest
                   | _ \<Rightarrow> Inl (if rest = [] then ''EEXIST'' else ''ENOTDIR'')))))"

definition memMkdir :: "string \<Rightarrow> memfs \<Rightarrow> string \<Rightarrow> string + memfs" where
  "memMkdir dir fs p = (if p = [] then Inl ''ENOENT'' else mkdirAt fs [] (components dir p))"

definition memCopy :: "string \<Rightarrow> memfs \<Rightarrow> string \<Rightarrow> string \<Rightarrow> string + memfs" where
  "memCopy dir fs from to =
     (case memRead dir fs from of
        Inl e \<Rightarrow> Inl e
      | Inr content \<Rightarrow> memWrite dir fs to content)"

definition exampleHost :: "string \<Rightarrow> memfs host" where
  "exampleHost dir =
     \<lparr>platform = ''linux'', cwd = dir, getuid = Some 1000, getgid = Some 1000,
      envSandboxImage = None,
      whichSucceeds = (\<lambda>c. c = ''podman''),
      versionOutput = (\<lambda>b. if b = ''podman'' then Some (''podman version 4.9.3'', []) else None),
      rootlessProbe = (\<lambda>rt. True),
      imagePresent = (\<lambda>rt i. True),
      pullSucceeds = (\<lambda>rt i. False),
      existsSync = memExists dir,
      realpathSync = memRealpath dir,
      readFileSync = memRead dir,
      writeFileSync = memWrite dir,
      mkdirSync = memMkdir dir,
      readdirSync = memReaddir dir,
      statSize = memStatSize dir,
      unlinkSync = memUnlink dir,
      copyFileSync = memCopy dir\<rparr>"

definition exampleConfig :: "string \<Rightarrow> SandboxConfig" where
  "exampleConfig root = \<lparr>cfg_workspacePath = root, timeout = Some 1000, env = None\<rparr>"

text \<open>The bridge after \<open>initialize\<close> on the example host.\<close>

definition exampleBridge :: "string \<Rightarrow> memfs \<Rightarrow> string \<Rightarrow> LinuxContainerBridge" where
  "exampleBridge dir fs root =
     snd (initialize (newBridge (exampleHost dir)) (exampleHost dir) fs (exampleConfig root))"

text \<open>File systems of the example host.\<close>

definition linkedRootFs :: memfs where
  "linkedRootFs =
     [(''/ws'', LinkNode ''/data/ws''), (''/data'', DirNode), (''/data/ws'', DirNode)]"

definition plainFs :: memfs where
  "plainFs = [(''/ws'', DirNode), (''/ws/a.txt'', FileNode ''hello'')]"

definition siblingFs :: memfs where
  "siblingFs =
     [(''/ws'', DirNode), (''/ws-evil'', DirNode), (''/ws-evil/secret'', FileNode ''s3cret'')]"

text \<open>A bridge on Docker whose configuration has an environment overlay.\<close>

definition envBridge :: LinuxContainerBridge where
  "envBridge =
     \<lparr>config = Some \<lparr>cfg_workspacePath = ''/ws'', timeout = None,
                     env = Some [(''LANG'', ''C''), (''MODE'', ''default''), (''bad-name'', ''x'')]\<rparr>,
      workspacePath = ''/ws'', initialized = True, runtime = Some Docker,
      image = ''docker.io/library/node:20-bookworm-slim''\<rparr>"

section \<open>Facts about the path functions\<close>

lemma splitOn_nonempty: "splitOn sep s \<noteq> []"
  by (induction s) (auto split: list.splits)

lemma splitOn_append: "splitOn sep (a @ sep # b) = splitOn sep a @ splitOn sep b"
proof (induction a)
  case Nil
  then show ?case by simp
next
  case (Cons c a)
  then show ?case
    using splitOn_nonempty [of sep a] splitOn_nonempty [of sep b]
    by (cases "splitOn sep a") (auto split: list.splits)
qed

lemma splitOn_no_sep: "sep \<notin> set s \<Longrightarrow> splitOn sep s = [s]"
  by (induction s) auto

lemma splitOn_free: "x \<in> set (splitOn sep s) \<Longrightarrow> sep \<notin> set x"
proof (induction s arbitrary: x)
  case Nil
  then show ?case by simp
next
  case (Cons c s)
  then show ?case
    by (cases "splitOn sep s") (auto split: if_splits)
qed

lemma pathSegments_append:
  "pathSegments (a @ CHR ''/'' # b) = pathSegments a @ pathSegments b"
  by (simp add: pathSegments_def splitOn_append)

lemma pathSegments_Nil: "pathSegments [] = []"
  by (simp add: pathSegments_def)

lemma pathSegments_free: "x \<in> set (pathSegments p) \<Longrightarrow> x \<noteq> [] \<and> CHR ''/'' \<notin> set x"
  by (auto simp: pathSegments_def dest: splitOn_free)

lemma normalizeSegs_filter:
  "normalizeSegs a acc (filter (\<lambda>s. s \<noteq> []) xs) = normalizeSegs a acc xs"
  by (induction xs arbitrary: acc) (auto split: list.splits)

lemma normalizeString_segments:
  "normalizeString p a = joinWith ''/'' (normalizeSegs a [] (pathSegments p))"
  by (simp add: normalizeString_def pathSegments_def normalizeSegs_filter)

lemma normalizeSegs_plain_out:
  "list_all plainSeg acc \<Longrightarrow> list_all (\<lambda>s. CHR ''/'' \<notin> set s) xs
   \<Longrightarrow> list_all plainSeg (normalizeSegs False acc xs)"
proof (induction xs arbitrary: acc)
  case Nil
  then show ?case by (simp add: list_all_iff)
next
  case (Cons s xs)
  then show ?case
    by (cases acc) (auto simp: plainSeg_def)
qed

lemma normalizeSegs_plain_id:
  "list_all plainSeg xs \<Longrightarrow> normalizeSegs a acc xs = rev acc @ xs"
  by (induction xs arbitrary: acc) (auto simp: plainSeg_def)

lemma pathSegments_joinWith:
  "list_all plainSeg segs \<Longrightarrow> pathSegments (joinWith ''/'' segs) = segs"
proof (induction segs rule: induct_list012)
  case 1
  then show ?case by (simp add: pathSegments_def)
next
  case (2 x)
  then show ?case by (simp add: pathSegments_def plainSeg_def splitOn_no_sep)
next
  case (3 x y ys)
  have "pathSegments x = [x]"
    using 3 by (simp add: pathSegments_def plainSeg_def splitOn_no_sep)
  then show ?case
    using 3 pathSegments_append [of x "joinWith ''/'' (y # ys)"] by simp
qed

lemma joinWith_plain_last:
  "list_all plainSeg segs \<Longrightarrow> segs \<noteq> []
   \<Longrightarrow> joinWith ''/'' segs \<noteq> [] \<and> last (joinWith ''/'' segs) \<noteq> CHR ''/''"
proof (induction segs rule: induct_list012)
  case 1
  then show ?case by simp
next
  case (2 x)
  then have "x \<noteq> []" and "CHR ''/'' \<notin> set x"
    by (simp_all add: plainSeg_def)
  moreover from \<open>x \<noteq> []\<close> have "last x \<in> set x"
    by (rule last_in_set)
  ultimately have "last x \<noteq> CHR ''/''"
    by metis
  with \<open>x \<noteq> []\<close> show ?case by simp
next
  case (3 x y ys)
  then show ?case by simp
qed

lemma resolvedSegs_plain: "list_all plainSeg (resolvedSegs dir p)"
  unfolding resolvedSegs_def
  by (rule normalizeSegs_plain_out) (auto simp: list_all_iff dest: pathSegments_free)

lemma path_resolve_absolute:
  assumes "isAbsolute dir \<or> isAbsolute p"
  shows "path_resolve dir p = CHR ''/'' # joinWith ''/'' (resolvedSegs dir p)"
proof (cases "isAbsolute p")
  case True
  then have "p \<noteq> []" by (auto simp: isAbsolute_def)
  moreover have "pathSegments (p @ ''/'') = pathSegments p"
    using pathSegments_append [of p "[]"] by (simp add: pathSegments_Nil)
  ultimately show ?thesis
    using True by (simp add: path_resolve_def resolvedSegs_def normalizeString_segments)
next
  case False
  with assms have d: "isAbsolute dir" by simp
  then have dn: "dir \<noteq> []" by (auto simp: isAbsolute_def)
  have e: "pathSegments (dir @ ''/'' @ p @ ''/'') = pathSegments (dir @ ''/'' @ p)"
    using pathSegments_append [of "dir @ ''/'' @ p" "[]"] by (simp add: pathSegments_Nil)
  have e0: "pathSegments (dir @ ''/'') = pathSegments (dir @ ''/'' @ [])"
    by simp
  show ?thesis
  proof (cases "p = []")
    case True
    then show ?thesis
      using False d dn by (simp add: path_resolve_def resolvedSegs_def normalizeString_segments)
  next
    case pn: False
    then show ?thesis
      using False d dn e by (simp add: path_resolve_def resolvedSegs_def normalizeString_segments)
  qed
qed

lemma resolved_fixed:
  assumes "list_all plainSeg segs"
  shows "path_resolve dir (CHR ''/'' # joinWith ''/'' segs) = CHR ''/'' # joinWith ''/'' segs"
    and "path_normalize (CHR ''/'' # joinWith ''/'' segs) = CHR ''/'' # joinWith ''/'' segs"
proof -
  let ?r = "CHR ''/'' # joinWith ''/'' segs"
  have abs: "isAbsolute ?r" by (simp add: isAbsolute_def)
  have ps: "pathSegments ?r = segs"
    using pathSegments_append [of "[]" "joinWith ''/'' segs"] pathSegments_joinWith [OF assms]
    by (simp add: pathSegments_Nil)
  have "resolvedSegs dir ?r = segs"
    using abs ps assms by (simp add: resolvedSegs_def normalizeSegs_plain_id)
  then show "path_resolve dir ?r = ?r"
    using path_resolve_absolute [of dir ?r] abs by simp
  have q: "normalizeString ?r False = joinWith ''/'' segs"
    using ps assms by (simp add: normalizeString_segments normalizeSegs_plain_id)
  show "path_normalize ?r = ?r"
  proof (cases "segs = []")
    case True
    then show ?thesis using abs q by (simp add: path_normalize_def Let_def)
  next
    case False
    then have "joinWith ''/'' segs \<noteq> [] \<and> last (joinWith ''/'' segs) \<noteq> CHR ''/''"
      using joinWith_plain_last [OF assms] by simp
    then show ?thesis using abs q by (simp add: path_normalize_def Let_def)
  qed
qed

lemma startsWith_refl: "startsWith s s"
  by (induction s) auto

lemma path_resolve_trailing:
  assumes "isAbsolute x"
  shows "path_resolve dir (x @ ''/'') = path_resolve dir x"
proof -
  have "isAbsolute (x @ ''/'')"
    using assms by (auto simp: isAbsolute_def split: list.splits)
  moreover have "pathSegments (x @ ''/'') = pathSegments x"
    using pathSegments_append [of x "[]"] by (simp add: pathSegments_Nil)
  ultimately show ?thesis
    using assms path_resolve_absolute [of dir x] path_resolve_absolute [of dir "x @ ''/''"]
    by (simp add: resolvedSegs_def)
qed

lemma path_resolve_join:
  assumes d: "isAbsolute dir" and p: "\<not> isAbsolute p"
  shows "path_resolve dir (path_join dir p) = path_resolve dir p"
proof -
  let ?joined = "if p = [] then dir else dir @ ''/'' @ p"
  let ?segs = "resolvedSegs dir p"
  let ?r = "CHR ''/'' # joinWith ''/'' ?segs"
  have dn: "dir \<noteq> []" using d by (auto simp: isAbsolute_def)
  have ja: "isAbsolute ?joined" using d by (auto simp: isAbsolute_def split: list.splits)
  have jn: "?joined \<noteq> []" using dn by simp
  have "pathSegments (dir @ ''/'') = pathSegments dir"
    using pathSegments_append [of dir "[]"] by (simp add: pathSegments_Nil)
  then have segs: "normalizeSegs False [] (pathSegments ?joined) = ?segs"
    using p by (simp add: resolvedSegs_def)
  have pl: "list_all plainSeg ?segs" by (rule resolvedSegs_plain)
  have rp: "path_resolve dir p = ?r"
    using path_resolve_absolute [of dir p] d by simp
  have pj: "path_join dir p = path_normalize ?joined"
    using dn by (simp add: path_join_def Let_def)
  have q: "normalizeString ?joined False = joinWith ''/'' ?segs"
    using segs by (simp add: normalizeString_segments)
  have "path_normalize ?joined = ?r \<or> path_normalize ?joined = ?r @ ''/''"
    using ja jn q by (auto simp: path_normalize_def Let_def)
  then show ?thesis
  proof
    assume "path_normalize ?joined = ?r"
    then show ?thesis using pj rp resolved_fixed(1) [OF pl, of dir] by simp
  next
    assume "path_normalize ?joined = ?r @ ''/''"
    moreover have "isAbsolute ?r" by (simp add: isAbsolute_def)
    ultimately show ?thesis
      using pj rp resolved_fixed(1) [OF pl, of dir] path_resolve_trailing [of ?r dir] by simp
  qed
qed

section \<open>Resolution on the example host\<close>

text \<open>
  Links are followed in every component of a path, a relative target starts from the
  directory of the link, a name below a missing directory is missing although \<open>..\<close>
  follows, and a link to itself ends in an error.
\<close>

lemma exampleHost_resolution_examples:
  "realpathSync (exampleHost ''/'') (linkedRootFs @ [(''/data/ws/a.txt'', FileNode ''x'')]) ''/ws/a.txt''
     = Inr ''/data/ws/a.txt''"
  "existsSync (exampleHost ''/'') (linkedRootFs @ [(''/data/ws/a.txt'', FileNode ''x'')]) ''/ws/a.txt''"
  "readFileSync (exampleHost ''/'') (linkedRootFs @ [(''/data/ws/a.txt'', FileNode ''x'')]) ''/ws/a.txt''
     = Inr ''x''"
  "realpathSync (exampleHost ''/data'') [(''/data'', DirNode), (''/data/l'', LinkNode ''../t''), (''/t'', FileNode ''x'')] ''l''
     = Inr ''/t''"
  "realpathSync (exampleHost ''/'') plainFs ''/ws/b/../a.txt'' = Inl ''ENOENT''"
  "realpathSync (exampleHost ''/'') plainFs ''/ws/a.txt/'' = Inl ''ENOTDIR''"
  "realpathSync (exampleHost ''/'') [(''/a'', LinkNode ''/a'')] ''/a'' = Inl ''ELOOP''"
  "\<not> existsSync (exampleHost ''/'') [(''/a'', LinkNode ''/gone'')] ''/a''"
  by code_simp+

section \<open>Path validation\<close>

text \<open>
  C1. The claim: every path whose resolved form lies outside the workspace root is
  rejected by \<open>validatePath\<close>, and every path inside it is accepted. The code compares
  the normalized strings with \<open>startsWith\<close>, so a sibling directory whose name begins
  with the name of the root passes: with the root \<open>/ws\<close>, the path \<open>/ws-evil/secret\<close>
  is not within the root, and yet \<open>validatePath\<close> returns it and \<open>readFile\<close> reads it.
\<close>

theorem validatePath_accepts_sibling_of_root:
  "initialize (newBridge (exampleHost ''/'')) (exampleHost ''/'') siblingFs (exampleConfig ''/ws'')
     = (Inr (),
        \<lparr>config = Some (exampleConfig ''/ws''), workspacePath = ''/ws'', initialized = True,
         runtime = Some Podman, image = ''docker.io/library/node:20-bookworm-slim''\<rparr>)
   \<and> \<not> withinRoot ''/ws'' ''/ws-evil/secret''
   \<and> validatePath
         \<lparr>config = Some (exampleConfig ''/ws''), workspacePath = ''/ws'', initialized = True,
          runtime = Some Podman, image = ''docker.io/library/node:20-bookworm-slim''\<rparr>
         (exampleHost ''/'') siblingFs ''/ws-evil/secret'' = Inr ''/ws-evil/secret''
   \<and> readFile
         \<lparr>config = Some (exampleConfig ''/ws''), workspacePath = ''/ws'', initialized = True,
          runtime = Some Podman, image = ''docker.io/library/node:20-bookworm-slim''\<rparr>
         (exampleHost ''/'') siblingFs ''/ws-evil/secret'' = Inr ''s3cret''"
  by code_simp

text \<open>
  C2. The claim: a relative path is resolved against the workspace root. The code calls
  \<open>path.resolve\<close> with the path alone, which resolves against the working directory of
  the process. What holds: validating a relative path is validating the working
  directory joined with it, and so the workspace root joined with it when the process
  runs in the workspace root.
\<close>

theorem validatePath_relative_to_cwd:
  assumes "isAbsolute (cwd h)" and "\<not> isAbsolute p"
  shows "validatePath b h fs p = validatePath b h fs (path_join (cwd h) p)
         \<and> (cwd h = workspacePath b \<longrightarrow>
              validatePath b h fs p = validatePath b h fs (path_join (workspacePath b) p))"
  using path_resolve_join [OF assms] by (auto simp: validatePath_def)

theorem validatePath_relative_to_cwd_witness:
  "validatePath (exampleBridge ''/ws'' siblingFs ''/ws'') (exampleHost ''/ws'') siblingFs ''a/../notes.txt''
     = Inr ''/ws/notes.txt''
   \<and> validatePath (exampleBridge ''/ws'' siblingFs ''/ws'') (exampleHost ''/ws'') siblingFs
        (path_join ''/ws'' ''a/../notes.txt'') = Inr ''/ws/notes.txt''"
proof -
  have c: "cwd (exampleHost ''/ws'') = ''/ws''" by (simp add: exampleHost_def)
  have a: "isAbsolute (cwd (exampleHost ''/ws''))" by (simp add: c isAbsolute_def)
  have r: "\<not> isAbsolute ''a/../notes.txt''" by (simp add: isAbsolute_def)
  have v: "validatePath (exampleBridge ''/ws'' siblingFs ''/ws'') (exampleHost ''/ws'') siblingFs
        (path_join ''/ws'' ''a/../notes.txt'') = Inr ''/ws/notes.txt''"
    by code_simp
  show ?thesis
    using validatePath_relative_to_cwd [OF a r, of "exampleBridge ''/ws'' siblingFs ''/ws''" siblingFs] v
    by (simp add: c)
qed

text \<open>
  With the working directory \<open>/home/user\<close> and the root \<open>/ws\<close>, the relative path
  \<open>notes.txt\<close> is rejected as \<open>/home/user/notes.txt\<close>, while the root joined with it
  is accepted.
\<close>

theorem validatePath_relative_not_root_based:
  "validatePath (exampleBridge ''/home/user'' siblingFs ''/ws'') (exampleHost ''/home/user'') siblingFs
      ''notes.txt'' = Inl (PathOutsideWorkspace ''/home/user/notes.txt'')
   \<and> validatePath (exampleBridge ''/home/user'' siblingFs ''/ws'') (exampleHost ''/home/user'') siblingFs
      (path_join ''/ws'' ''notes.txt'') = Inr ''/ws/notes.txt''"
  by code_simp

lemma initialize_workspacePath:
  assumes "initialize b0 h fs cfg = (Inr (), b)"
  shows "workspacePath b = path_resolve (cwd h) (cfg_workspacePath cfg) \<and> initialized b
         \<and> config b = Some cfg \<and> runtime b \<noteq> None"
  using assms
  by (auto simp: initialize_def Let_def split: if_splits option.splits)

text \<open>
  The root is valid on an initialized bridge whenever its real path, if the root exists,
  begins with the configured root.
\<close>

lemma validatePath_root:
  assumes init: "initialize b0 h fs0 cfg = (Inr (), b)"
    and dir: "isAbsolute (cwd h)"
    and real: "existsSync h fs (workspacePath b) \<Longrightarrow>
                 \<exists>realPath. realpathSync h fs (workspacePath b) = Inr realPath
                   \<and> startsWith realPath (workspacePath b)"
  shows "validatePath b h fs (workspacePath b) = Inr (workspacePath b)
         \<and> validatePath b h fs (cfg_workspacePath cfg) = Inr (workspacePath b)"
proof -
  let ?segs = "resolvedSegs (cwd h) (cfg_workspacePath cfg)"
  have w: "workspacePath b = CHR ''/'' # joinWith ''/'' ?segs"
    using initialize_workspacePath [OF init] path_resolve_absolute [of "cwd h" "cfg_workspacePath cfg"] dir
    by simp
  have pl: "list_all plainSeg ?segs" by (rule resolvedSegs_plain)
  have r: "path_resolve (cwd h) (workspacePath b) = workspacePath b"
    using resolved_fixed(1) [OF pl] w by simp
  have n: "path_normalize (workspacePath b) = workspacePath b"
    using resolved_fixed(2) [OF pl] w by simp
  have r0: "path_resolve (cwd h) (cfg_workspacePath cfg) = workspacePath b"
    using initialize_workspacePath [OF init] by simp
  have ne: "workspacePath b \<noteq> []" using w by simp
  have 1: "validatePath b h fs (workspacePath b) = Inr (workspacePath b)"
    using real ne r n by (auto simp: validatePath_def Let_def startsWith_refl)
  have 2: "validatePath b h fs (cfg_workspacePath cfg) = Inr (workspacePath b)"
    using real ne r0 n by (auto simp: validatePath_def Let_def startsWith_refl)
  from 1 2 show ?thesis by simp
qed

lemma validatePath_root_example:
  "validatePath (exampleBridge ''/'' siblingFs ''/ws'') (exampleHost ''/'') siblingFs ''/ws'' = Inr ''/ws''"
proof -
  have b: "initialize (newBridge (exampleHost ''/'')) (exampleHost ''/'') siblingFs (exampleConfig ''/ws'')
        = (Inr (), exampleBridge ''/'' siblingFs ''/ws'')"
    by code_simp
  have d: "isAbsolute (cwd (exampleHost ''/''))" by code_simp
  have w: "workspacePath (exampleBridge ''/'' siblingFs ''/ws'') = ''/ws''" by code_simp
  have r: "\<exists>realPath. realpathSync (exampleHost ''/'') siblingFs (workspacePath (exampleBridge ''/'' siblingFs ''/ws'')) = Inr realPath
                   \<and> startsWith realPath (workspacePath (exampleBridge ''/'' siblingFs ''/ws''))"
    unfolding w by (rule exI [of _ "''/ws''"]) code_simp
  show ?thesis
    using validatePath_root [OF b d r] w by simp
qed

text \<open>
  C8. The claim: on an initialized bridge the workspace root itself is always valid. The
  code compares the real path of an existing target with the configured root, which
  \<open>initialize\<close> resolves lexically only. When the configured root \<open>/ws\<close> is a symbolic
  link to \<open>/data/ws\<close>, \<open>initialize\<close> succeeds and \<open>validatePath\<close> rejects the root
  itself as a symlink escape.
\<close>

theorem validatePath_linked_root_rejected:
  "initialize (newBridge (exampleHost ''/'')) (exampleHost ''/'') linkedRootFs (exampleConfig ''/ws'')
     = (Inr (),
        \<lparr>config = Some (exampleConfig ''/ws''), workspacePath = ''/ws'', initialized = True,
         runtime = Some Podman, image = ''docker.io/library/node:20-bookworm-slim''\<rparr>)
   \<and> validatePath
         \<lparr>config = Some (exampleConfig ''/ws''), workspacePath = ''/ws'', initialized = True,
          runtime = Some Podman, image = ''docker.io/library/node:20-bookworm-slim''\<rparr>
         (exampleHost ''/'') linkedRootFs ''/ws''
       = Inl (SymlinkEscape ''/ws'' ''/data/ws'')"
  by code_simp

section \<open>Running a command: the callbacks\<close>

lemma resolvePromise_fields [simp]:
  "stdout_acc (resolvePromise s r) = stdout_acc s"
  "stderr_acc (resolvePromise s r) = stderr_acc s"
  "timedOut (resolvePromise s r) = timedOut s"
  "timerSet (resolvePromise s r) = timerSet s"
  "killCalled (resolvePromise s r) = killCalled s"
  by (simp_all add: resolvePromise_def split: option.splits)

lemma resolvePromise_settled:
  "settled (resolvePromise s r) = (case settled s of None \<Rightarrow> Some r | Some r' \<Rightarrow> Some r')"
  by (simp add: resolvePromise_def split: option.splits)

lemma run_stdout_acc:
  "stdout_acc (foldl (handleEvent t) s evs) = stdout_acc s @ stdoutText evs"
proof (induction evs arbitrary: s)
  case Nil
  then show ?case by simp
next
  case (Cons e evs)
  then show ?case by (cases e) simp_all
qed

lemma run_stderr_acc:
  "stderr_acc (foldl (handleEvent t) s evs) = stderr_acc s @ stderrText evs"
proof (induction evs arbitrary: s)
  case Nil
  then show ?case by simp
next
  case (Cons e evs)
  then show ?case by (cases e) simp_all
qed

lemma run_settled_stays:
  "settled s = Some r \<Longrightarrow> settled (foldl (handleEvent t) s evs) = Some r"
proof (induction evs arbitrary: s)
  case Nil
  then show ?case by simp
next
  case (Cons e evs)
  then show ?case by (cases e) (simp_all add: resolvePromise_settled)
qed

lemma run_killCalled_stays:
  "killCalled s \<Longrightarrow> killCalled (foldl (handleEvent t) s evs)"
proof (induction evs arbitrary: s)
  case Nil
  then show ?case by simp
next
  case (Cons e evs)
  then show ?case by (cases e) simp_all
qed

lemma run_quiet:
  assumes "\<forall>e\<in>set evs. \<not> settles e"
  shows "settled (foldl (handleEvent t) s evs) = settled s
         \<and> timedOut (foldl (handleEvent t) s evs) = (timedOut s \<or> (timerSet s \<and> TimerFired \<in> set evs))
         \<and> killCalled (foldl (handleEvent t) s evs) = (killCalled s \<or> (timerSet s \<and> TimerFired \<in> set evs))"
  using assms
proof (induction evs arbitrary: s)
  case Nil
  then show ?case by simp
next
  case (Cons e evs)
  then show ?case by (cases e) auto
qed

lemma spawned_fields [simp]:
  "stdout_acc spawned = []" "stderr_acc spawned = []" "timedOut spawned = False"
  "timerSet spawned = True" "killCalled spawned = False" "settled spawned = None"
  by (simp_all add: spawned_def)

lemma runChild_settles:
  assumes q: "\<forall>x\<in>set pre. \<not> settles x" and e: "settles e"
  shows "settled (runChild t (pre @ e # rest)) = Some (settlement t pre e)"
proof -
  let ?s = "foldl (handleEvent t) spawned pre"
  have s: "settled ?s = None" "timedOut ?s = (TimerFired \<in> set pre)"
    using run_quiet [OF q, of t spawned] by simp_all
  have a: "stdout_acc ?s = stdoutText pre" "stderr_acc ?s = stderrText pre"
    by (simp_all add: run_stdout_acc run_stderr_acc)
  have "settled (handleEvent t ?s e) = Some (settlement t pre e)"
    using e s a by (cases e) (simp_all add: settlement_def resolvePromise_settled)
  then show ?thesis
    by (simp add: runChild_def run_settled_stays)
qed

lemma runChild_pending:
  assumes "\<forall>x\<in>set evs. \<not> settles x"
  shows "settled (runChild t evs) = None"
  using run_quiet [OF assms, of t spawned] by (simp add: runChild_def)

lemma executeCommand_spawns:
  assumes "reachesSpawn b h fs dir"
  shows "executeCommand b h fs command dir callEnv evs = Inr (settled (runChild (timeoutOf b) evs))"
  using assms
  by (auto simp: executeCommand_def reachesSpawn_def buildRuntimeArgs_def
           split: option.splits if_splits sum.splits)


lemma stdoutText_append: "stdoutText (xs @ ys) = stdoutText xs @ stdoutText ys"
  by (induction xs rule: stdoutText.induct) simp_all

lemma stderrText_append: "stderrText (xs @ ys) = stderrText xs @ stderrText ys"
  by (induction xs rule: stderrText.induct) simp_all

lemma leadByte_needed: "leadByte b = Some (n, lo, hi) \<Longrightarrow> 0 < n"
  by (auto simp: leadByte_def split: if_splits)

lemma utf8Decode_tail:
  "list_all (continuation 0x80 0xBF) (take n ds) \<Longrightarrow> n \<le> length ds \<Longrightarrow>
   utf8Decode n 0x80 0xBF seen (ds @ rest) =
     (if n = 0 then utf8Decode 0 0x80 0xBF seen (ds @ rest)
      else seen @ take n ds @ utf8Decode 0 0x80 0xBF [] (drop n ds @ rest))"
proof (induction n arbitrary: ds seen)
  case 0
  then show ?case by simp
next
  case (Suc n)
  then obtain d ds' where ds: "ds = d # ds'" by (cases ds) auto
  with Suc.prems have d: "continuation 0x80 0xBF d" and t: "list_all (continuation 0x80 0xBF) (take n ds')"
    and l: "n \<le> length ds'" by simp_all
  show ?case
  proof (cases n)
    case 0
    then show ?thesis using ds d by (simp add: continuation_def)
  next
    case (Suc m)
    then show ?thesis
      using Suc.IH [OF t l, of "seen @ [d]"] ds d by (simp add: continuation_def)
  qed
qed

lemma utf8Decode_start: "utf8Decode 0 lo hi seen d = utf8Decode 0 0x80 0xBF [] d"
  by (cases d) simp_all

lemma toString_wellFormed: "wellFormed d \<Longrightarrow> toString d = d"
  unfolding toString_def
proof (induction d rule: wellFormed.induct)
  case 1
  then show ?case by simp
next
  case (2 c cs)
  show ?case
  proof (cases "byteOf c < 0x80")
    case True
    then show ?thesis using 2 by simp
  next
    case False
    from "2.prems" False obtain n lo hi where lb: "leadByte (byteOf c) = Some (n, lo, hi)"
      by (cases "leadByte (byteOf c)") auto
    from "2.prems" False lb obtain d ds where cs: "cs = d # ds"
      by (cases cs) auto
    from "2.prems" False lb cs have d: "continuation lo hi d" and len: "n - 1 \<le> length ds"
      and conts: "list_all (continuation 0x80 0xBF) (take (n - 1) ds)"
      and rest: "wellFormed (drop (n - 1) ds)"
      by simp_all
    have n: "0 < n" using lb by (rule leadByte_needed)
    have ih: "utf8Decode 0 0x80 0xBF [] (drop (n - 1) ds) = drop (n - 1) ds"
      using "2.IH"(2) [OF False lb refl refl cs] rest by simp
    have tail: "utf8Decode (n - 1) 0x80 0xBF [c, d] (ds @ []) =
            (if n - 1 = 0 then utf8Decode 0 0x80 0xBF [c, d] (ds @ [])
             else [c, d] @ take (n - 1) ds @ utf8Decode 0 0x80 0xBF [] (drop (n - 1) ds @ []))"
      by (rule utf8Decode_tail [OF conts len])
    show ?thesis
    proof (cases "n = 1")
      case True
      then show ?thesis
        using False lb cs d ih by (simp add: continuation_def)
    next
      case n1: False
      then have "utf8Decode (n - 1) 0x80 0xBF [c, d] ds = [c, d] @ ds"
        using tail ih n by simp
      then show ?thesis
        using False lb cs d n n1 by (simp add: continuation_def)
    qed
  qed
qed

lemma text_wellFormed:
  "list_all wellFormedChunk evs \<Longrightarrow>
   stdoutText evs = stdoutBytes evs \<and> stderrText evs = stderrBytes evs"
  by (induction evs rule: stdoutText.induct) (simp_all add: toString_wellFormed)

lemma isData_quiet: "isData e \<Longrightarrow> \<not> settles e \<and> e \<noteq> TimerFired"
  by (cases e) simp_all

lemma example_reachesSpawn:
  "reachesSpawn (exampleBridge ''/'' plainFs ''/ws'') (exampleHost ''/'') plainFs None"
  by code_simp

text \<open>
  C3. The claim: when the run exceeds the timeout, \<open>executeCommand\<close> kills the child
  and returns a result with \<open>success = false\<close> and \<open>exitCode = 124\<close> that still carries
  the stdout and stderr collected. A run exceeds the timeout when the timer fires before
  any \<open>close\<close> or \<open>error\<close>: chunks, then the timer, then whatever does not settle the
  promise. The timer callback calls \<open>kill\<close>, whatever follows, and not before; the
  promise is never rejected and stays pending until the next \<open>close\<close> or \<open>error\<close>. At
  \<open>close\<close> the result has \<open>exitCode = 124\<close>, stdout is the text collected, and stderr
  is not the text collected but that text followed by a line feed and
  \<open>Command timed out after <timeout>ms\<close>, the whole trimmed. At \<open>error\<close> the result has
  \<open>exitCode = 1\<close>, and stderr is the text collected, a line feed and the message of the
  error, trimmed. \<open>success\<close> is false in both.
\<close>

theorem executeCommand_timeout:
  assumes spawn: "reachesSpawn b h fs dir"
    and pre: "\<forall>e\<in>set pre. isData e"
    and mid: "\<forall>e\<in>set mid. \<not> settles e"
  shows "executeCommand b h fs command dir callEnv (pre @ TimerFired # mid) = Inr None
         \<and> executeCommand b h fs command dir callEnv (pre @ TimerFired # mid @ CloseEvent code # rest)
           = Inr (Some \<lparr>success = False,
                        stdout = stdoutText pre @ stdoutText mid,
                        stderr = trim (stderrText pre @ stderrText mid
                                       @ timeoutMessage (timeoutOf b)),
                        exitCode = Some 124\<rparr>)
         \<and> executeCommand b h fs command dir callEnv (pre @ TimerFired # mid @ ErrorEvent msg # rest)
           = Inr (Some \<lparr>success = False,
                        stdout = stdoutText pre @ stdoutText mid,
                        stderr = trim (stderrText pre @ stderrText mid @ [CHR 0x0A] @ msg),
                        exitCode = Some 1\<rparr>)
         \<and> \<not> killCalled (runChild (timeoutOf b) pre)
         \<and> killCalled (runChild (timeoutOf b) (pre @ TimerFired # later))"
proof -
  let ?t = "timeoutOf b"
  let ?q = "pre @ TimerFired # mid"
  have q: "\<forall>x\<in>set ?q. \<not> settles x"
    using pre mid by (auto dest: isData_quiet)
  have "settled (runChild ?t ?q) = None"
    using q by (rule runChild_pending)
  then have pending: "executeCommand b h fs command dir callEnv ?q = Inr None"
    using executeCommand_spawns [OF spawn] by simp
  have "settled (runChild ?t (?q @ CloseEvent code # rest)) = Some (settlement ?t ?q (CloseEvent code))"
    by (rule runChild_settles [OF q]) simp
  then have closed: "executeCommand b h fs command dir callEnv (pre @ TimerFired # mid @ CloseEvent code # rest)
                  = Inr (Some (settlement ?t ?q (CloseEvent code)))"
    using executeCommand_spawns [OF spawn] by simp
  have "settled (runChild ?t (?q @ ErrorEvent msg # rest)) = Some (settlement ?t ?q (ErrorEvent msg))"
    by (rule runChild_settles [OF q]) simp
  then have failed: "executeCommand b h fs command dir callEnv (pre @ TimerFired # mid @ ErrorEvent msg # rest)
                  = Inr (Some (settlement ?t ?q (ErrorEvent msg)))"
    using executeCommand_spawns [OF spawn] by simp
  have p: "\<forall>x\<in>set pre. \<not> settles x" "TimerFired \<notin> set pre"
    using pre by (auto dest: isData_quiet)
  have k0: "\<not> killCalled (runChild ?t pre)"
    using run_quiet [OF p(1), of ?t spawned] p(2) by (simp add: runChild_def)
  have q1: "\<forall>x\<in>set (pre @ [TimerFired]). \<not> settles x"
    using p(1) by auto
  have k1: "killCalled (runChild ?t (pre @ [TimerFired]))"
    using run_quiet [OF q1, of ?t spawned] by (simp add: runChild_def)
  have "killCalled (foldl (handleEvent ?t) (runChild ?t (pre @ [TimerFired])) later)"
    using k1 by (rule run_killCalled_stays)
  then have k2: "killCalled (runChild ?t (pre @ TimerFired # later))"
    by (simp add: runChild_def)
  show ?thesis
    using pending closed failed k0 k2
    by (simp add: settlement_def stdoutText_append stderrText_append)
qed

theorem executeCommand_timeout_witness:
  "executeCommand (exampleBridge ''/'' plainFs ''/ws'') (exampleHost ''/'') plainFs ''sleep 30'' None None
     [StdoutData ''started'', StderrData ''warn'', TimerFired, StdoutData ''...'', CloseEvent None]
   = Inr (Some \<lparr>success = False, stdout = ''started...'',
                stderr = ''warn\<newline>Command timed out after 1000ms'', exitCode = Some 124\<rparr>)
   \<and> executeCommand (exampleBridge ''/'' plainFs ''/ws'') (exampleHost ''/'') plainFs ''sleep 30'' None None
     [StdoutData ''started'', StderrData ''warn'', TimerFired, StdoutData ''...'', ErrorEvent ''kill EPERM'']
   = Inr (Some \<lparr>success = False, stdout = ''started...'',
                stderr = ''warn\<newline>kill EPERM'', exitCode = Some 1\<rparr>)
   \<and> executeCommand (exampleBridge ''/'' plainFs ''/ws'') (exampleHost ''/'') plainFs ''sleep 30'' None None
     [StdoutData ''started'', StderrData ''warn'', TimerFired, StdoutData ''...'']
   = Inr None"
proof -
  have p: "\<forall>e\<in>set [StdoutData ''started'', StderrData ''warn'']. isData e" by simp
  have m: "\<forall>e\<in>set [StdoutData ''...'']. \<not> settles e" by simp
  have t: "trim (stderrText [StdoutData ''started'', StderrData ''warn''] @ stderrText [StdoutData ''...'']
             @ timeoutMessage (timeoutOf (exampleBridge ''/'' plainFs ''/ws'')))
           = ''warn\<newline>Command timed out after 1000ms''"
    by code_simp
  have e: "trim (stderrText [StdoutData ''started'', StderrData ''warn''] @ stderrText [StdoutData ''...'']
             @ [CHR 0x0A] @ ''kill EPERM'')
           = ''warn\<newline>kill EPERM''"
    by code_simp
  have o: "stdoutText [StdoutData ''started'', StderrData ''warn''] @ stdoutText [StdoutData ''...'']
           = ''started...''"
    by code_simp
  show ?thesis
    using executeCommand_timeout [OF example_reachesSpawn p m,
            where command = "''sleep 30''" and callEnv = None and code = None and rest = "[]"
              and msg = "''kill EPERM''" and later = "[]"]
    unfolding t e o by simp
qed

text \<open>
  The stderr collected, a space and \<open>x\<close>, is not the \<open>stderr\<close> of the result and does
  not occur in it: \<open>trim\<close> removed the space.
\<close>

theorem executeCommand_timeout_stderr_changed:
  "executeCommand (exampleBridge ''/'' plainFs ''/ws'') (exampleHost ''/'') plainFs ''sleep 30'' None None
     [StderrData '' x'', TimerFired, CloseEvent None]
   = Inr (Some \<lparr>success = False, stdout = [],
                stderr = ''x\<newline>Command timed out after 1000ms'', exitCode = Some 124\<rparr>)
   \<and> stderrBytes [StderrData '' x'', TimerFired, CloseEvent None] = '' x''
   \<and> \<not> sublist '' x'' ''x\<newline>Command timed out after 1000ms''"
  by code_simp

text \<open>
  A run that closes with code \<open>n\<close> before the timer: \<open>success\<close> is \<open>n = 0\<close>, the exit
  code is \<open>n\<close>, and the two fields are the text of the chunks, each decoded by itself.
  Where every chunk is well-formed UTF-8 that text is the bytes written.
\<close>

lemma executeCommand_close_result:
  assumes spawn: "reachesSpawn b h fs dir"
    and pre: "\<forall>e\<in>set pre. isData e"
  shows "executeCommand b h fs command dir callEnv (pre @ CloseEvent (Some n) # rest)
           = Inr (Some \<lparr>success = (n = 0), stdout = stdoutText pre, stderr = stderrText pre,
                        exitCode = Some n\<rparr>)
         \<and> (list_all wellFormedChunk pre \<longrightarrow>
              stdoutText pre = stdoutBytes pre \<and> stderrText pre = stderrBytes pre)"
proof -
  have q: "\<forall>x\<in>set pre. \<not> settles x" and nt: "TimerFired \<notin> set pre"
    using pre by (auto dest: isData_quiet)
  have "settled (runChild (timeoutOf b) (pre @ CloseEvent (Some n) # rest))
          = Some (settlement (timeoutOf b) pre (CloseEvent (Some n)))"
    by (rule runChild_settles [OF q]) simp
  then have "executeCommand b h fs command dir callEnv (pre @ CloseEvent (Some n) # rest)
               = Inr (Some (settlement (timeoutOf b) pre (CloseEvent (Some n))))"
    using executeCommand_spawns [OF spawn] by simp
  then show ?thesis
    using nt text_wellFormed [of pre] by (simp add: settlement_def)
qed

lemma executeCommand_close_result_example:
  "executeCommand (exampleBridge ''/'' plainFs ''/ws'') (exampleHost ''/'') plainFs ''ls nowhere'' None None
     [StdoutData [CHR 0xC3, CHR 0xA9], StderrData ''ls: '', StderrData ''nowhere'', CloseEvent (Some 2)]
   = Inr (Some \<lparr>success = False, stdout = [CHR 0xC3, CHR 0xA9], stderr = ''ls: nowhere'',
                exitCode = Some 2\<rparr>)"
  by code_simp

text \<open>
  C4. The claim: a run that closes with code \<open>N\<close> before the timer gives
  \<open>success = (N == 0)\<close>, \<open>exitCode = N\<close>, and stdout and stderr exactly the bytes
  written. The callbacks append \<open>data.toString()\<close> chunk by chunk, so a character whose
  bytes arrive in two chunks is lost. The command writes the two bytes of U+00E9, C3 and
  A9, and exits with code 0; the pipe delivers them in two chunks. Each chunk alone is
  ill formed and decodes to U+FFFD: stdout is U+FFFD U+FFFD, although the bytes written
  are well-formed text that \<open>toString\<close> leaves as it is when it gets them in one piece.
\<close>

theorem executeCommand_split_character:
  "executeCommand (exampleBridge ''/'' plainFs ''/ws'') (exampleHost ''/'') plainFs ''printf'' None None
     [StdoutData [CHR 0xC3], StdoutData [CHR 0xA9], CloseEvent (Some 0)]
   = Inr (Some \<lparr>success = True, stdout = [CHR 0xEF, CHR 0xBF, CHR 0xBD, CHR 0xEF, CHR 0xBF, CHR 0xBD],
                stderr = [], exitCode = Some 0\<rparr>)
   \<and> stdoutBytes [StdoutData [CHR 0xC3], StdoutData [CHR 0xA9], CloseEvent (Some 0)] = [CHR 0xC3, CHR 0xA9]
   \<and> toString [CHR 0xC3, CHR 0xA9] = [CHR 0xC3, CHR 0xA9]"
  by code_simp

text \<open>
  The bridge of that run is initialized and has its runtime, so the run passes the guard
  of \<open>executeCommand\<close>; the \<open>stdout\<close> of its result is not what the command wrote.
\<close>

theorem executeCommand_split_character_witness:
  "initialized (exampleBridge ''/'' plainFs ''/ws'')
   \<and> runtime (exampleBridge ''/'' plainFs ''/ws'') = Some Podman
   \<and> (\<exists>r. executeCommand (exampleBridge ''/'' plainFs ''/ws'') (exampleHost ''/'') plainFs ''printf'' None None
             [StdoutData [CHR 0xC3], StdoutData [CHR 0xA9], CloseEvent (Some 0)] = Inr (Some r)
          \<and> success r \<and> exitCode r = Some 0
          \<and> stdout r \<noteq> stdoutBytes [StdoutData [CHR 0xC3], StdoutData [CHR 0xA9], CloseEvent (Some 0)])"
proof -
  have guard: "initialized (exampleBridge ''/'' plainFs ''/ws'')"
    "runtime (exampleBridge ''/'' plainFs ''/ws'') = Some Podman"
    by code_simp+
  show ?thesis
    using executeCommand_split_character guard by simp
qed



section \<open>The environment of the container\<close>

lemma objSet_keys:
  "set (map fst (objSet obj k v)) = insert k (set (map fst obj))"
  by (induction obj k v rule: objSet.induct) (simp_all add: insert_commute)

lemma objSet_distinct:
  "distinct (map fst obj) \<Longrightarrow> distinct (map fst (objSet obj k v))"
proof (induction obj)
  case Nil
  then show ?case by simp
next
  case (Cons kv obj)
  then show ?case
    using objSet_keys [of obj k v] by (cases kv) auto
qed

lemma objSet_lookup: "map_of (objSet obj k v) = (map_of obj)(k \<mapsto> v)"
  by (induction obj) (auto simp: fun_eq_iff)

lemma spread_fold_distinct:
  "distinct (map fst t) \<Longrightarrow> distinct (map fst (foldl (\<lambda>t kv. objSet t (fst kv) (snd kv)) t xs))"
  by (induction xs arbitrary: t) (simp_all add: objSet_distinct)

lemma spread_fold_lookup:
  "distinct (map fst xs) \<Longrightarrow>
   map_of (foldl (\<lambda>t kv. objSet t (fst kv) (snd kv)) t xs) k =
     (case map_of xs k of Some v \<Rightarrow> Some v | None \<Rightarrow> map_of t k)"
proof (induction xs arbitrary: t)
  case Nil
  then show ?case by simp
next
  case (Cons kv xs)
  from Cons.prems have d: "distinct (map fst xs)" and n: "map_of xs (fst kv) = None"
    by (simp_all add: map_of_eq_None_iff)
  show ?case
  proof (cases "k = fst kv")
    case True
    then show ?thesis
      using Cons.IH [OF d, of "objSet t (fst kv) (snd kv)"] n
      by (cases kv) (simp add: objSet_lookup)
  next
    case False
    then show ?thesis
      using Cons.IH [OF d, of "objSet t (fst kv) (snd kv)"]
      by (cases kv) (auto simp: objSet_lookup split: option.splits)
  qed
qed

lemma ownEntries_set: "set (ownEntries obj) = set obj"
  by (auto simp: ownEntries_def)

lemma ownEntries_distinct:
  assumes "distinct (map fst obj)"
  shows "distinct (map fst (ownEntries obj))"
proof -
  have d: "distinct obj" and i: "inj_on fst (set obj)"
    using assms by (simp_all add: distinct_map)
  have "distinct (ownEntries obj)"
    using d by (auto simp: ownEntries_def)
  moreover have "inj_on fst (set (ownEntries obj))"
    using i by (simp add: ownEntries_set)
  ultimately show ?thesis by (simp add: distinct_map)
qed

lemma ownEntries_lookup:
  assumes "distinct (map fst obj)"
  shows "map_of (ownEntries obj) = map_of obj"
  using assms ownEntries_distinct [OF assms] ownEntries_set [of obj]
  by (simp add: map_of_inject_set)

lemma objSpread_distinct:
  "distinct (map fst t) \<Longrightarrow> distinct (map fst (objSpread t src))"
  by (simp add: objSpread_def spread_fold_distinct)

lemma objSpread_lookup:
  assumes "distinct (map fst src)"
  shows "map_of (objSpread t src) k = (case map_of src k of Some v \<Rightarrow> Some v | None \<Rightarrow> map_of t k)"
  using spread_fold_lookup [OF ownEntries_distinct [OF assms], of t k] ownEntries_lookup [OF assms]
  by (simp add: objSpread_def)

lemma filter_keys_lookup:
  "map_of (filter (\<lambda>kv. P (fst kv)) xs) k = (if P k then map_of xs k else None)"
  by (induction xs) auto

lemma envArgs_filter:
  "envArgs es = concat (map (\<lambda>kv. [''--env'', fst kv @ ''='' @ snd kv]) (filter (\<lambda>kv. safeName (fst kv)) es))"
  by (induction es rule: envArgs.induct) simp_all

lemma mergedEnv_distinct: "distinct (map fst (mergedEnv b callEnv))"
  by (simp add: mergedEnv_def objSet_distinct objSpread_distinct)

lemma mergedEnv_lookup:
  assumes "distinct (map fst (configEnv b))"
    and "distinct (map fst (case callEnv of None \<Rightarrow> [] | Some e \<Rightarrow> e))"
  shows "map_of (mergedEnv b callEnv) k =
           (if k = ''WORKSPACE'' then Some containerWorkspacePath
            else (case map_of (case callEnv of None \<Rightarrow> [] | Some e \<Rightarrow> e) k of
                    Some v \<Rightarrow> Some v
                  | None \<Rightarrow> map_of (configEnv b) k))"
  using objSpread_lookup [OF assms(2), of "objSpread [] (configEnv b)" k]
        objSpread_lookup [OF assms(1), of "[]" k]
  by (simp add: mergedEnv_def objSet_lookup split: option.splits)

text \<open>
  C7. The claim: the container gets the call-site \<open>env\<close> merged over the overlay of
  the configuration, call-site values winning, and only the variables with a safe name.
  The merge has a third, last part, \<open>WORKSPACE: this.containerWorkspacePath\<close>, which
  wins over both. What holds: a variable is passed on exactly when its name is safe;
  \<open>WORKSPACE\<close> is always \<open>/workspace\<close>; any other has the call-site value if there is
  one and the value of the overlay otherwise. The keys of an object are distinct.
\<close>

theorem buildRuntimeArgs_environment:
  assumes rt: "runtime b = Some rt"
    and cfg: "distinct (map fst (configEnv b))"
    and call: "distinct (map fst callEnv)"
  shows "buildRuntimeArgs b h command dir (Some callEnv) =
           Inr ([''run'', ''--rm'', ''--network'', ''none'', ''--cap-drop'', ''ALL'',
                 ''--security-opt'', ''no-new-privileges'', ''--pids-limit'', ''512'',
                 ''--workdir'', dir,
                 ''--volume'', workspacePath b @ '':'' @ containerWorkspacePath @ '':rw'']
                @ userArgs rt h
                @ concat (map (\<lambda>kv. [''--env'', fst kv @ ''='' @ snd kv]) (forwardedEnv b (Some callEnv)))
                @ [image b, ''/bin/bash'', ''-lc'', command])
         \<and> buildRuntimeArgs b h command dir None = buildRuntimeArgs b h command dir (Some [])
         \<and> distinct (map fst (forwardedEnv b (Some callEnv)))
         \<and> (\<forall>k. map_of (forwardedEnv b (Some callEnv)) k =
                  (if \<not> safeName k then None
                   else if k = ''WORKSPACE'' then Some containerWorkspacePath
                   else (case map_of callEnv k of
                           Some v \<Rightarrow> Some v
                         | None \<Rightarrow> map_of (configEnv b) k)))"
proof -
  have 1: "buildRuntimeArgs b h command dir (Some callEnv) =
           Inr ([''run'', ''--rm'', ''--network'', ''none'', ''--cap-drop'', ''ALL'',
                 ''--security-opt'', ''no-new-privileges'', ''--pids-limit'', ''512'',
                 ''--workdir'', dir,
                 ''--volume'', workspacePath b @ '':'' @ containerWorkspacePath @ '':rw'']
                @ userArgs rt h
                @ concat (map (\<lambda>kv. [''--env'', fst kv @ ''='' @ snd kv]) (forwardedEnv b (Some callEnv)))
                @ [image b, ''/bin/bash'', ''-lc'', command])"
    using rt by (simp add: buildRuntimeArgs_def forwardedEnv_def envArgs_filter)
  have m: "distinct (map fst (ownEntries (mergedEnv b (Some callEnv))))"
    by (rule ownEntries_distinct [OF mergedEnv_distinct])
  have 2: "distinct (map fst (forwardedEnv b (Some callEnv)))"
    using m by (simp add: forwardedEnv_def distinct_map_filter)
  have 3: "map_of (forwardedEnv b (Some callEnv)) k =
                  (if \<not> safeName k then None
                   else if k = ''WORKSPACE'' then Some containerWorkspacePath
                   else (case map_of callEnv k of
                           Some v \<Rightarrow> Some v
                         | None \<Rightarrow> map_of (configEnv b) k))" for k
    using mergedEnv_lookup [of b "Some callEnv" k] cfg call
    by (simp add: forwardedEnv_def filter_keys_lookup ownEntries_lookup [OF mergedEnv_distinct])
  have 4: "buildRuntimeArgs b h command dir None = buildRuntimeArgs b h command dir (Some [])"
    using rt by (simp add: buildRuntimeArgs_def mergedEnv_def)
  from 1 2 3 4 show ?thesis by blast
qed

theorem buildRuntimeArgs_environment_witness:
  "map_of (forwardedEnv envBridge (Some [(''MODE'', ''fast''), (''2x'', ''y'')])) ''MODE'' = Some ''fast''
   \<and> map_of (forwardedEnv envBridge (Some [(''MODE'', ''fast''), (''2x'', ''y'')])) ''LANG'' = Some ''C''
   \<and> map_of (forwardedEnv envBridge (Some [(''MODE'', ''fast''), (''2x'', ''y'')])) ''2x'' = None
   \<and> map_of (forwardedEnv envBridge (Some [(''MODE'', ''fast''), (''2x'', ''y'')])) ''bad-name'' = None"
proof -
  have r: "runtime envBridge = Some Docker" by (simp add: envBridge_def)
  have c: "distinct (map fst (configEnv envBridge))" by code_simp
  have e: "distinct (map fst [(''MODE'', ''fast''), (''2x'', ''y'')])" by simp
  have s: "safeName ''MODE''" "safeName ''LANG''" "\<not> safeName ''2x''" "\<not> safeName ''bad-name''"
    by code_simp+
  have v: "map_of (configEnv envBridge) ''LANG'' = Some ''C''" by code_simp
  show ?thesis
    using buildRuntimeArgs_environment [OF r c e, of "exampleHost ''/''" "''true''" "''/workspace''"] s v
    by simp
qed

text \<open>
  A call-site \<open>WORKSPACE=/tmp\<close> does not win: the container gets
  \<open>WORKSPACE=/workspace\<close>.
\<close>

theorem buildRuntimeArgs_workspace_forced:
  "buildRuntimeArgs envBridge (exampleHost ''/'') ''env'' ''/workspace''
     (Some [(''WORKSPACE'', ''/tmp''), (''MODE'', ''fast'')])
   = Inr [''run'', ''--rm'', ''--network'', ''none'', ''--cap-drop'', ''ALL'',
          ''--security-opt'', ''no-new-privileges'', ''--pids-limit'', ''512'',
          ''--workdir'', ''/workspace'', ''--volume'', ''/ws:/workspace:rw'',
          ''--user'', ''1000:1000'',
          ''--env'', ''LANG=C'', ''--env'', ''MODE=fast'', ''--env'', ''WORKSPACE=/workspace'',
          ''docker.io/library/node:20-bookworm-slim'', ''/bin/bash'', ''-lc'', ''env'']"
  by code_simp

section \<open>The life cycle\<close>

lemma validatePath_uninitialized:
  "workspacePath b = [] \<Longrightarrow> validatePath b h fs p = Inl BridgeNotInitialized"
  by (simp add: validatePath_def)

lemma executeCommand_uninitialized:
  "\<not> initialized b \<Longrightarrow>
   executeCommand b h fs command dir callEnv events = Inl LinuxBridgeNotInitialized"
  by (simp add: executeCommand_def split: option.splits)

text \<open>
  C5. The claim: every operation fails with a not-initialized error before
  \<open>initialize\<close> has succeeded and after \<open>shutdown\<close>. The file operations test
  \<open>workspacePath\<close>, not \<open>initialized\<close>, and \<open>fileExists\<close> catches every error. What
  holds: on a new instance \<open>executeCommand\<close> and the file operations fail with the
  not-initialized error, but for \<open>fileExists\<close>, which answers \<open>false\<close>; after
  \<open>shutdown\<close>, \<open>executeCommand\<close> fails with the not-initialized error.
\<close>

theorem operations_before_initialize:
  "executeCommand (newBridge h) h fs command dir callEnv events = Inl LinuxBridgeNotInitialized
   \<and> readFile (newBridge h) h fs p = Inl BridgeNotInitialized
   \<and> writeFile (newBridge h) h fs p content = (Inl BridgeNotInitialized, fs)
   \<and> listDirectory (newBridge h) h fs p = Inl BridgeNotInitialized
   \<and> fileExists (newBridge h) h fs p = False
   \<and> deleteFile (newBridge h) h fs p = (Inl BridgeNotInitialized, fs)
   \<and> createDirectory (newBridge h) h fs p = (Inl BridgeNotInitialized, fs)
   \<and> copyFile (newBridge h) h fs p q = (Inl BridgeNotInitialized, fs)
   \<and> executeCommand (shutdown b) h fs command dir callEnv events = Inl LinuxBridgeNotInitialized"
proof -
  have w: "workspacePath (newBridge h) = []" and i: "\<not> initialized (newBridge h)"
    by (simp_all add: newBridge_def)
  have s: "\<not> initialized (shutdown b)"
    by (simp add: shutdown_def)
  show ?thesis
    by (simp add: validatePath_uninitialized [OF w] executeCommand_uninitialized [OF i]
                  executeCommand_uninitialized [OF s]
                  readFile_def writeFile_def listDirectory_def fileExists_def deleteFile_def
                  createDirectory_def copyFile_def)
qed

theorem operations_before_initialize_witness:
  "readFile (newBridge (exampleHost ''/'')) (exampleHost ''/'') plainFs ''/ws/a.txt'' = Inl BridgeNotInitialized
   \<and> executeCommand (shutdown (exampleBridge ''/'' plainFs ''/ws'')) (exampleHost ''/'') plainFs
        ''true'' None None [CloseEvent (Some 0)] = Inl LinuxBridgeNotInitialized"
  using operations_before_initialize [of "exampleHost ''/''" plainFs "''true''" None None
          "[CloseEvent (Some 0)]" "''/ws/a.txt''" "[]" "[]" "exampleBridge ''/'' plainFs ''/ws''"]
  by simp

text \<open>
  \<open>fileExists\<close> on a new instance answers \<open>false\<close> and does not fail; and after
  \<open>initialize\<close> and \<open>shutdown\<close>, which leaves \<open>workspacePath\<close> as it is, \<open>readFile\<close>
  reads the file and \<open>fileExists\<close> answers \<open>true\<close>.
\<close>

theorem operations_after_shutdown_still_served:
  "fileExists (newBridge (exampleHost ''/'')) (exampleHost ''/'') plainFs ''/ws/a.txt'' = False
   \<and> initialize (newBridge (exampleHost ''/'')) (exampleHost ''/'') plainFs (exampleConfig ''/ws'')
       = (Inr (),
          \<lparr>config = Some (exampleConfig ''/ws''), workspacePath = ''/ws'', initialized = True,
           runtime = Some Podman, image = ''docker.io/library/node:20-bookworm-slim''\<rparr>)
   \<and> shutdown
         \<lparr>config = Some (exampleConfig ''/ws''), workspacePath = ''/ws'', initialized = True,
          runtime = Some Podman, image = ''docker.io/library/node:20-bookworm-slim''\<rparr>
       = \<lparr>config = None, workspacePath = ''/ws'', initialized = False, runtime = None,
          image = ''docker.io/library/node:20-bookworm-slim''\<rparr>
   \<and> readFile
         \<lparr>config = None, workspacePath = ''/ws'', initialized = False, runtime = None,
          image = ''docker.io/library/node:20-bookworm-slim''\<rparr>
         (exampleHost ''/'') plainFs ''/ws/a.txt'' = Inr ''hello''
   \<and> fileExists
         \<lparr>config = None, workspacePath = ''/ws'', initialized = False, runtime = None,
          image = ''docker.io/library/node:20-bookworm-slim''\<rparr>
         (exampleHost ''/'') plainFs ''/ws/a.txt'' = True"
  by code_simp

text \<open>
  A failed \<open>initialize\<close> leaves the flag \<open>initialized\<close> as it was, so
  \<open>executeCommand\<close> still fails on an instance that was not initialized; the other
  fields keep what the call assigned before the check that failed.
\<close>

lemma failed_initialize_flag:
  assumes "initialize b h fs cfg = (Inl e, b')"
  shows "initialized b' = initialized b
         \<and> (e = OnlyOnLinux \<longrightarrow> b' = b)
         \<and> (e \<noteq> OnlyOnLinux \<longrightarrow>
              config b' = Some cfg
              \<and> workspacePath b' = path_resolve (cwd h) (cfg_workspacePath cfg))
         \<and> ((\<forall>img. e \<noteq> ImageNotPrepared img) \<longrightarrow> runtime b' = runtime b \<and> image b' = image b)
         \<and> (\<not> initialized b \<longrightarrow>
              executeCommand b' h' fs' command dir callEnv events = Inl LinuxBridgeNotInitialized)"
proof -
  have 1: "initialized b' = initialized b"
    using assms by (auto simp: initialize_def Let_def split: if_splits option.splits)
  have 2: "e = OnlyOnLinux \<longrightarrow> b' = b"
    using assms by (auto simp: initialize_def Let_def split: if_splits option.splits)
  have 3: "e \<noteq> OnlyOnLinux \<longrightarrow>
              config b' = Some cfg
              \<and> workspacePath b' = path_resolve (cwd h) (cfg_workspacePath cfg)"
    using assms by (auto simp: initialize_def Let_def split: if_splits option.splits)
  have 4: "(\<forall>img. e \<noteq> ImageNotPrepared img) \<longrightarrow> runtime b' = runtime b \<and> image b' = image b"
    using assms by (auto simp: initialize_def Let_def split: if_splits option.splits)
  have 5: "\<not> initialized b \<longrightarrow>
              executeCommand b' h' fs' command dir callEnv events = Inl LinuxBridgeNotInitialized"
    using 1 by (simp add: executeCommand_uninitialized)
  from 1 2 3 4 5 show ?thesis by blast
qed

lemma failed_initialize_flag_example:
  "initialized (snd (initialize (newBridge (exampleHost ''/'')) (exampleHost ''/'') plainFs
                      (exampleConfig ''/missing''))) = False
   \<and> executeCommand (snd (initialize (newBridge (exampleHost ''/'')) (exampleHost ''/'') plainFs
                            (exampleConfig ''/missing'')))
        (exampleHost ''/'') plainFs ''true'' None None [CloseEvent (Some 0)]
       = Inl LinuxBridgeNotInitialized"
proof -
  have f: "initialize (newBridge (exampleHost ''/'')) (exampleHost ''/'') plainFs (exampleConfig ''/missing'')
           = (Inl (WorkspaceDoesNotExist ''/missing''),
              snd (initialize (newBridge (exampleHost ''/'')) (exampleHost ''/'') plainFs
                     (exampleConfig ''/missing'')))"
    by code_simp
  have n: "\<not> initialized (newBridge (exampleHost ''/''))"
    by (simp add: newBridge_def)
  show ?thesis
    using failed_initialize_flag [OF f, of "exampleHost ''/''" plainFs "''true''" None None
            "[CloseEvent (Some 0)]"] n
    by simp
qed

text \<open>
  C6. The claim: after a failed \<open>initialize\<close> the instance is as it was before the
  call. On a new instance, with a workspace that does not exist, the call throws and
  leaves \<open>config\<close> and \<open>workspacePath\<close> assigned; \<open>validatePath\<close>, which failed with
  the not-initialized error before the call, now accepts a path under the missing root,
  and \<open>writeFile\<close> writes there.
\<close>

theorem initialize_failure_keeps_fields:
  "initialize (newBridge (exampleHost ''/'')) (exampleHost ''/'') plainFs (exampleConfig ''/missing'')
     = (Inl (WorkspaceDoesNotExist ''/missing''),
        \<lparr>config = Some (exampleConfig ''/missing''), workspacePath = ''/missing'',
         initialized = False, runtime = None,
         image = ''docker.io/library/node:20-bookworm-slim''\<rparr>)
   \<and> newBridge (exampleHost ''/'')
       = \<lparr>config = None, workspacePath = [], initialized = False, runtime = None,
          image = ''docker.io/library/node:20-bookworm-slim''\<rparr>
   \<and> validatePath (newBridge (exampleHost ''/'')) (exampleHost ''/'') plainFs ''/missing/x''
       = Inl BridgeNotInitialized
   \<and> validatePath (snd (initialize (newBridge (exampleHost ''/'')) (exampleHost ''/'') plainFs
                          (exampleConfig ''/missing'')))
        (exampleHost ''/'') plainFs ''/missing/x'' = Inr ''/missing/x''
   \<and> fst (writeFile (snd (initialize (newBridge (exampleHost ''/'')) (exampleHost ''/'') plainFs
                               (exampleConfig ''/missing'')))
             (exampleHost ''/'') plainFs ''/missing/x'' ''data'') = Inr ()"
  by code_simp

section \<open>Deleting a file\<close>

lemma memRemove_lookup:
  "map_of (memRemove fs k) k' = (if k' = k then None else map_of fs k')"
  by (induction fs) (auto simp: memRemove_def)

text \<open>A resolution that succeeds after an entry was removed succeeded before, alike.\<close>

lemma walk_removed:
  "walk fuel (memRemove fs k) cur segs = Inr r \<Longrightarrow> walk fuel fs cur segs = Inr r"
proof (induction fuel "memRemove fs k" cur segs rule: walk.induct)
  case (1 fuel cur)
  then show ?case by simp
next
  case (2 fuel cur s rest)
  show ?case
  proof (cases "s = [] \<or> s = ''.''")
    case True
    then show ?thesis using 2 by auto
  next
    case plain: False
    show ?thesis
    proof (cases "s = ''..''")
      case True
      then show ?thesis using 2 plain by auto
    next
      case False
      show ?thesis
      proof (cases "map_of (memRemove fs k) (absPath (cur @ [s]))")
        case None
        then show ?thesis using "2.prems" plain False by simp
      next
        case (Some node)
        then have same: "map_of fs (absPath (cur @ [s])) = Some node"
          by (simp add: memRemove_lookup split: if_splits)
        show ?thesis
        proof (cases node)
          case (FileNode content)
          then show ?thesis using "2.prems" plain False Some same by (simp split: if_splits)
        next
          case DirNode
          then show ?thesis using 2 plain False Some same by simp
        next
          case (LinkNode target)
          show ?thesis
          proof (cases fuel)
            case 0
            then show ?thesis using "2.prems" plain False Some LinkNode by simp
          next
            case (Suc fewer)
            then show ?thesis
              using "2.hyps"(4) [OF plain False Some LinkNode Suc] "2.prems" plain False Some same LinkNode
              by (cases "isAbsolute target") (auto split: if_splits)
          qed
        qed
      qed
    qed
  qed
qed

text \<open>A resolution that succeeds passes through the resolution of every prefix.\<close>

lemma walk_prefix:
  "walk fuel fs cur (pre @ rest) = Inr r \<Longrightarrow>
   \<exists>mid fuel'. walk fuel fs cur pre = Inr mid \<and> walk fuel' fs mid rest = Inr r"
proof (induction fuel fs cur pre rule: walk.induct)
  case (1 fuel fs cur)
  then show ?case by auto
next
  case (2 fuel fs cur s pre)
  show ?case
  proof (cases "s = [] \<or> s = ''.''")
    case True
    then show ?thesis using 2 by auto
  next
    case plain: False
    show ?thesis
    proof (cases "s = ''..''")
      case True
      then show ?thesis using 2 plain by auto
    next
      case False
      show ?thesis
      proof (cases "map_of fs (absPath (cur @ [s]))")
        case None
        then show ?thesis using "2.prems" plain False by simp
      next
        case (Some node)
        show ?thesis
        proof (cases node)
          case (FileNode content)
          then have "pre = []" and "rest = []" and "r = cur @ [s]"
            using "2.prems" plain False Some by (auto split: if_splits)
          then have "walk fuel fs cur (s # pre) = Inr (cur @ [s])
                     \<and> walk fuel fs (cur @ [s]) rest = Inr r"
            using plain False Some FileNode by simp
          then show ?thesis by blast
        next
          case DirNode
          then show ?thesis using 2 plain False Some by simp
        next
          case (LinkNode target)
          show ?thesis
          proof (cases fuel)
            case 0
            then show ?thesis using "2.prems" plain False Some LinkNode by simp
          next
            case (Suc fewer)
            then show ?thesis
              using "2.IH"(4) [OF plain False Some LinkNode Suc] "2.prems" plain False Some LinkNode
              by (cases "isAbsolute target") (auto split: if_splits)
          qed
        qed
      qed
    qed
  qed
qed

lemma exampleHost_unlink:
  assumes "unlinkSync (exampleHost d) fs q = Inr fs'"
  shows "\<not> existsSync (exampleHost d) fs' q"
proof
  let ?parts = "components d q"
  let ?name = "last ?parts"
  assume "existsSync (exampleHost d) fs' q"
  then obtain real where there: "walk 40 fs' [] ?parts = Inr real"
    by (auto simp: exampleHost_def memExists_def resolveIn_def split: if_splits sum.splits)
  from assms have u: "memUnlink d fs q = Inr fs'"
    by (simp add: exampleHost_def)
  then have name: "?name \<noteq> []" "?name \<noteq> ''.''" "?name \<noteq> ''..''"
    by (auto simp: memUnlink_def split: if_splits)
  from u obtain parent where parent: "walk 40 fs [] (butlast ?parts) = Inr parent"
    and removed: "fs' = memRemove fs (absPath (parent @ [?name]))"
    by (auto simp: memUnlink_def split: if_splits sum.splits option.splits fsnode.splits)
  have "?parts \<noteq> []"
    by (simp add: components_def splitOn_nonempty)
  then have parts: "?parts = butlast ?parts @ [?name]"
    by simp
  from there parts have "walk 40 fs' [] (butlast ?parts @ [?name]) = Inr real"
    by simp
  then obtain mid fuel' where mid: "walk 40 fs' [] (butlast ?parts) = Inr mid"
    and final: "walk fuel' fs' mid [?name] = Inr real"
    using walk_prefix [of 40 fs' "[]" "butlast ?parts" "[?name]" real] by blast
  from mid removed have "walk 40 fs [] (butlast ?parts) = Inr mid"
    using walk_removed [of 40 fs "absPath (parent @ [?name])" "[]" "butlast ?parts" mid] by simp
  with parent have "mid = parent" by simp
  then have "map_of fs' (absPath (mid @ [?name])) = None"
    using removed by (simp add: memRemove_lookup)
  then have "walk fuel' fs' mid [?name] = Inl ''ENOENT''"
    using name by simp
  with final show False by simp
qed

text \<open>
  C9. \<open>deleteFile\<close> on a valid path that does not exist succeeds and changes nothing,
  and a second \<open>deleteFile\<close> on the same path gives the result of the first and leaves
  the file system as the first left it. Of the host it takes that a path does not exist
  once \<open>unlinkSync\<close> has removed it.
\<close>

theorem deleteFile_idempotent:
  assumes unlinked: "\<And>fs1 q fs2. unlinkSync h fs1 q = Inr fs2 \<Longrightarrow> \<not> existsSync h fs2 q"
  shows "(validatePath b h fs p = Inr validPath \<and> \<not> existsSync h fs validPath \<longrightarrow>
            deleteFile b h fs p = (Inr (), fs))
         \<and> deleteFile b h (snd (deleteFile b h fs p)) p
             = (fst (deleteFile b h fs p), snd (deleteFile b h fs p))"
proof -
  have 1: "validatePath b h fs p = Inr validPath \<and> \<not> existsSync h fs validPath \<longrightarrow>
            deleteFile b h fs p = (Inr (), fs)"
    by (simp add: deleteFile_def)
  have 2: "deleteFile b h (snd (deleteFile b h fs p)) p
             = (fst (deleteFile b h fs p), snd (deleteFile b h fs p))"
  proof (cases "validatePath b h fs p")
    case (Inl e)
    then show ?thesis by (simp add: deleteFile_def)
  next
    case (Inr validPath)
    then have v: "validPath = path_resolve (cwd h) p"
      by (auto simp: validatePath_def Let_def split: if_splits sum.splits)
    show ?thesis
    proof (cases "existsSync h fs validPath")
      case False
      then show ?thesis using Inr by (simp add: deleteFile_def)
    next
      case True
      show ?thesis
      proof (cases "unlinkSync h fs validPath")
        case (Inl e)
        then show ?thesis using Inr True by (simp add: deleteFile_def)
      next
        case r: (Inr fs1)
        have gone: "\<not> existsSync h fs1 validPath"
          using unlinked [OF r] .
        have "validatePath b h fs1 p = Inr validPath"
          using Inr gone v by (auto simp: validatePath_def Let_def split: if_splits sum.splits)
        then show ?thesis
          using Inr True r gone by (simp add: deleteFile_def)
      qed
    qed
  qed
  from 1 2 show ?thesis by simp
qed

theorem deleteFile_idempotent_witness:
  "deleteFile (exampleBridge ''/'' plainFs ''/ws'') (exampleHost ''/'') plainFs ''/ws/none.txt''
     = (Inr (), plainFs)
   \<and> deleteFile (exampleBridge ''/'' plainFs ''/ws'') (exampleHost ''/'') plainFs ''/ws/a.txt''
     = (Inr (), [(''/ws'', DirNode)])
   \<and> deleteFile (exampleBridge ''/'' plainFs ''/ws'') (exampleHost ''/'') [(''/ws'', DirNode)] ''/ws/a.txt''
     = (Inr (), [(''/ws'', DirNode)])"
proof -
  have v: "validatePath (exampleBridge ''/'' plainFs ''/ws'') (exampleHost ''/'') plainFs ''/ws/none.txt''
           = Inr ''/ws/none.txt''"
    by code_simp
  have n: "\<not> existsSync (exampleHost ''/'') plainFs ''/ws/none.txt''"
    by code_simp
  have d: "deleteFile (exampleBridge ''/'' plainFs ''/ws'') (exampleHost ''/'') plainFs ''/ws/a.txt''
           = (Inr (), [(''/ws'', DirNode)])"
    by code_simp
  show ?thesis
    using deleteFile_idempotent [of "exampleHost ''/''" "exampleBridge ''/'' plainFs ''/ws''" plainFs
            "''/ws/none.txt''" "''/ws/none.txt''", OF exampleHost_unlink]
          deleteFile_idempotent [of "exampleHost ''/''" "exampleBridge ''/'' plainFs ''/ws''" plainFs
            "''/ws/a.txt''" "''/ws/a.txt''", OF exampleHost_unlink]
          v n d
    by simp
qed

end
